theory Spec2Isabelle
  imports Complex_Main "HOL-Library.Sublist" "HOL-Library.Multiset" "HOL-Library.Product_Lexorder"
begin

section \<open>JavaScript values used by the pair pipeline\<close>

subsection \<open>Strings\<close>

text \<open>
  A JavaScript string is a sequence of UTF-16 code units; the model keeps the code units
  below 256 (Latin-1), one \<^typ>\<open>char\<close> each. On these \<open>String.prototype.toLowerCase\<close>
  maps \<open>A\<close>..\<open>Z\<close> and the accented capitals 192..222 (but not the multiplication sign
  215) to the code unit 32 above, which is the same as setting bit 5.
\<close>

definition toLowerChar :: "char \<Rightarrow> char" where
  "toLowerChar c =
     (let n = (of_char c :: nat) in
      if (65 \<le> n \<and> n \<le> 90) \<or> (192 \<le> n \<and> n \<le> 222 \<and> n \<noteq> 215)
      then (case c of Char b0 b1 b2 b3 b4 b5 b6 b7 \<Rightarrow> Char b0 b1 b2 b3 b4 True b6 b7)
      else c)"

definition toLowerCase :: "string \<Rightarrow> string" where
  "toLowerCase s = map toLowerChar s"

text \<open>\<open>s.includes(k)\<close>: \<open>k\<close> occurs in \<open>s\<close> as a contiguous run.\<close>

fun str_includes :: "string \<Rightarrow> string \<Rightarrow> bool" where
  "str_includes [] k = (k = [])"
| "str_includes (c # cs) k = (prefix k (c # cs) \<or> str_includes cs k)"

text \<open>
  A value that is a string or \<open>undefined\<close> is a \<^typ>\<open>string option\<close>. It is truthy when
  it is a non-empty string; \<open>v || d\<close> is \<open>v\<close> when \<open>v\<close> is truthy and \<open>d\<close> otherwise.
\<close>

fun truthy :: "string option \<Rightarrow> bool" where
  "truthy None = False"
| "truthy (Some s) = (s \<noteq> [])"

fun str_or :: "string option \<Rightarrow> string \<Rightarrow> string" where
  "str_or None d = d"
| "str_or (Some s) d = (if s = [] then d else s)"

text \<open>White space and line terminators that \<open>parseInt\<close> and \<open>parseFloat\<close> skip in front.\<close>

definition is_ws :: "char \<Rightarrow> bool" where
  "is_ws c = ((of_char c :: nat) \<in> {9, 10, 11, 12, 13, 32, 160})"

definition is_digit :: "char \<Rightarrow> bool" where
  "is_digit c = (48 \<le> (of_char c :: nat) \<and> (of_char c :: nat) \<le> 57)"

definition digit_val :: "char \<Rightarrow> nat" where
  "digit_val c = (of_char c :: nat) - 48"

definition is_hex_digit :: "char \<Rightarrow> bool" where
  "is_hex_digit c =
     (let n = (of_char c :: nat) in
      (48 \<le> n \<and> n \<le> 57) \<or> (65 \<le> n \<and> n \<le> 70) \<or> (97 \<le> n \<and> n \<le> 102))"

definition hex_val :: "char \<Rightarrow> nat" where
  "hex_val c =
     (let n = (of_char c :: nat) in
      if n \<le> 57 then n - 48 else if n \<le> 70 then n - 55 else n - 87)"

text \<open>The number a run of digits denotes, most significant digit first.\<close>

definition digits_val :: "nat \<Rightarrow> (char \<Rightarrow> nat) \<Rightarrow> string \<Rightarrow> nat" where
  "digits_val radix dv ds = foldl (\<lambda>a c. a * radix + dv c) 0 ds"

subsection \<open>Integers\<close>

text \<open>
  List lengths and indices, the decimals of a token and, in the contract of the
  paginator, page numbers and page sizes are integers. They are modelled as
  \<^typ>\<open>int\<close>, which is what the double arithmetic of the source computes as long as
  the values stay below \<open>2^53\<close> in magnitude.

  \<open>mathInt\<close> is the integer that \<open>parseInt(s)\<close> with no radix reads: skip leading white
  space, read a sign, switch to radix 16 after \<open>0x\<close> or \<open>0X\<close>, take the longest run of
  digits. With no digit there is no integer (and \<open>parseInt\<close> returns \<open>NaN\<close>).
\<close>

definition mathInt :: "string \<Rightarrow> int option" where
  "mathInt s =
     (let s0 = dropWhile is_ws s;
          neg = (case s0 of c # _ \<Rightarrow> c = CHR ''-'' | [] \<Rightarrow> False);
          s1 = (case s0 of c # r \<Rightarrow> if c = CHR ''+'' \<or> c = CHR ''-'' then r else s0 | [] \<Rightarrow> s0);
          hex = (case s1 of a # b # _ \<Rightarrow> a = CHR ''0'' \<and> (b = CHR ''x'' \<or> b = CHR ''X'') | _ \<Rightarrow> False);
          z = (if hex then takeWhile is_hex_digit (drop 2 s1) else takeWhile is_digit s1);
          m = (if hex then digits_val 16 hex_val z else digits_val 10 digit_val z)
      in if z = [] then None else Some (if neg then - int m else int m))"

text \<open>\<open>n || d\<close> for an integer Number \<open>n\<close> that may be missing: a missing one and \<open>0\<close> are falsy.\<close>

fun int_or :: "int option \<Rightarrow> int \<Rightarrow> int" where
  "int_or None d = d"
| "int_or (Some n) d = (if n = 0 then d else n)"

subsection \<open>Numbers\<close>

text \<open>
  A Number is \<open>NaN\<close>, an infinity or a finite value. The sign of a zero is not kept: the
  pipeline never divides by a zero and never prints one without going through
  \<open>price === 0\<close>, so \<open>-0\<close> and \<open>+0\<close> cannot be told apart in its results.
\<close>

datatype jsnum = NaN | NInf | Fin rat | PInf

fun js_lt :: "jsnum \<Rightarrow> jsnum \<Rightarrow> bool" where
  "js_lt NaN _ = False"
| "js_lt _ NaN = False"
| "js_lt PInf _ = False"
| "js_lt _ NInf = False"
| "js_lt NInf _ = True"
| "js_lt _ PInf = True"
| "js_lt (Fin a) (Fin b) = (a < b)"

definition js_gt :: "jsnum \<Rightarrow> jsnum \<Rightarrow> bool" where
  "js_gt a b = js_lt b a"

fun js_ge :: "jsnum \<Rightarrow> jsnum \<Rightarrow> bool" where
  "js_ge NaN _ = False"
| "js_ge _ NaN = False"
| "js_ge a b = (\<not> js_lt a b)"

text \<open>Strict equality \<open>===\<close> on Numbers: \<open>NaN\<close> equals nothing, itself included.\<close>

fun js_eq :: "jsnum \<Rightarrow> jsnum \<Rightarrow> bool" where
  "js_eq NaN _ = False"
| "js_eq _ NaN = False"
| "js_eq a b = (a = b)"

text \<open>
  The finite values are the IEEE 754 binary64 numbers, and every operation rounds its
  exact result to the nearest of them, ties to the even significand, overflowing to an
  infinity. \<open>round64\<close> is that rounding: \<open>ilog2\<close> finds the binade, whose exponent is
  not taken below \<open>-1022\<close> (the subnormal range), and the significand has 53 bits.
\<close>

definition pow2 :: "int \<Rightarrow> rat" where
  "pow2 e = (if 0 \<le> e then 2 ^ nat e else 1 / 2 ^ nat (- e))"

definition pow10 :: "int \<Rightarrow> rat" where
  "pow10 e = (if 0 \<le> e then 10 ^ nat e else 1 / 10 ^ nat (- e))"

fun bit_length :: "nat \<Rightarrow> nat" where
  "bit_length n = (if n = 0 then 0 else Suc (bit_length (n div 2)))"

fun dec_length :: "nat \<Rightarrow> nat" where
  "dec_length n = (if n < 10 then 1 else Suc (dec_length (n div 10)))"

declare bit_length.simps [simp del] dec_length.simps [simp del]

text \<open>For \<open>x > 0\<close>: the integer \<open>e\<close> with \<open>2^e \<le> x < 2^(e+1)\<close>, and the same for base ten.\<close>

definition ilog2 :: "rat \<Rightarrow> int" where
  "ilog2 x =
     (if 1 \<le> x then int (bit_length (nat \<lfloor>x\<rfloor>)) - 1
      else (let k = int (bit_length (nat \<lfloor>1 / x\<rfloor>)) - 1
            in if x = pow2 (- k) then - k else - k - 1))"

definition ilog10 :: "rat \<Rightarrow> int" where
  "ilog10 x =
     (if 1 \<le> x then int (dec_length (nat \<lfloor>x\<rfloor>)) - 1
      else - int (dec_length (nat (\<lceil>1 / x\<rceil> - 1))))"

definition round_half_even :: "rat \<Rightarrow> int" where
  "round_half_even q =
     (let f = \<lfloor>q\<rfloor>; r = q - of_int f
      in if r < 1 / 2 then f else if 1 / 2 < r then f + 1 else if even f then f else f + 1)"

definition round64 :: "rat \<Rightarrow> jsnum" where
  "round64 x =
     (if x = 0 then Fin 0
      else (let a = \<bar>x\<bar>;
                e = max (ilog2 a) (- 1022);
                ulp = pow2 (e - 52);
                y = of_int (round_half_even (a / ulp)) * ulp
            in if pow2 1024 \<le> y then (if 0 < x then PInf else NInf)
               else Fin (if 0 < x then y else - y)))"

text \<open>A finite value is a Number when rounding leaves it as it is.\<close>

fun is_double :: "jsnum \<Rightarrow> bool" where
  "is_double (Fin x) = (round64 x = Fin x)"
| "is_double _ = True"

fun js_neg :: "jsnum \<Rightarrow> jsnum" where
  "js_neg NaN = NaN"
| "js_neg NInf = PInf"
| "js_neg PInf = NInf"
| "js_neg (Fin a) = Fin (- a)"

fun js_sub :: "jsnum \<Rightarrow> jsnum \<Rightarrow> jsnum" where
  "js_sub NaN _ = NaN"
| "js_sub _ NaN = NaN"
| "js_sub PInf PInf = NaN"
| "js_sub NInf NInf = NaN"
| "js_sub PInf _ = PInf"
| "js_sub NInf _ = NInf"
| "js_sub _ PInf = NInf"
| "js_sub _ NInf = PInf"
| "js_sub (Fin a) (Fin b) = round64 (a - b)"

text \<open>An infinity with the sign of a finite factor or divisor; a zero counts as \<open>+0\<close>.\<close>

definition signed_inf :: "bool \<Rightarrow> jsnum" where
  "signed_inf positive = (if positive then PInf else NInf)"

fun js_mul :: "jsnum \<Rightarrow> jsnum \<Rightarrow> jsnum" where
  "js_mul NaN _ = NaN"
| "js_mul _ NaN = NaN"
| "js_mul (Fin a) (Fin b) = round64 (a * b)"
| "js_mul (Fin a) PInf = (if a = 0 then NaN else signed_inf (0 < a))"
| "js_mul (Fin a) NInf = (if a = 0 then NaN else signed_inf (a < 0))"
| "js_mul PInf (Fin b) = (if b = 0 then NaN else signed_inf (0 < b))"
| "js_mul NInf (Fin b) = (if b = 0 then NaN else signed_inf (b < 0))"
| "js_mul PInf PInf = PInf"
| "js_mul NInf NInf = PInf"
| "js_mul PInf NInf = NInf"
| "js_mul NInf PInf = NInf"

fun js_div :: "jsnum \<Rightarrow> jsnum \<Rightarrow> jsnum" where
  "js_div NaN _ = NaN"
| "js_div _ NaN = NaN"
| "js_div (Fin a) (Fin b) =
     (if b = 0 then (if a = 0 then NaN else signed_inf (0 < a)) else round64 (a / b))"
| "js_div (Fin a) PInf = Fin 0"
| "js_div (Fin a) NInf = Fin 0"
| "js_div PInf (Fin b) = signed_inf (0 \<le> b)"
| "js_div NInf (Fin b) = signed_inf (b < 0)"
| "js_div _ _ = NaN"

text \<open>
  \<open>Math.pow(10, k)\<close> for an integer \<open>k\<close>, taken as correctly rounded. (ECMAScript asks
  for an approximation only; the result is exact by definition for \<open>k = 0\<close>.)
\<close>

definition math_pow10 :: "int \<Rightarrow> jsnum" where
  "math_pow10 k = round64 (pow10 k)"

text \<open>\<open>x || d\<close> for a Number: \<open>NaN\<close> and zero are falsy.\<close>

fun num_or :: "jsnum \<Rightarrow> jsnum \<Rightarrow> jsnum" where
  "num_or NaN d = d"
| "num_or (Fin a) d = (if a = 0 then d else Fin a)"
| "num_or x d = x"

text \<open>
  \<open>parseFloat(s)\<close>: skip leading white space, then read the longest prefix that is a
  decimal literal: a sign, then \<open>Infinity\<close>, or digits with an optional fraction and an
  optional exponent (which counts only when it has a digit). No literal gives \<open>NaN\<close>.
\<close>

definition exponent_of :: "string \<Rightarrow> int" where
  "exponent_of r =
     (case r of [] \<Rightarrow> 0
      | c # t \<Rightarrow>
          if c = CHR ''e'' \<or> c = CHR ''E'' then
            (let eneg = (case t of d # _ \<Rightarrow> d = CHR ''-'' | [] \<Rightarrow> False);
                 t1 = (case t of d # u \<Rightarrow> if d = CHR ''+'' \<or> d = CHR ''-'' then u else t | [] \<Rightarrow> t);
                 ds = takeWhile is_digit t1;
                 m = int (digits_val 10 digit_val ds)
             in if ds = [] then 0 else if eneg then - m else m)
          else 0)"

definition parseFloat :: "string \<Rightarrow> jsnum" where
  "parseFloat s =
     (let s0 = dropWhile is_ws s;
          neg = (case s0 of c # _ \<Rightarrow> c = CHR ''-'' | [] \<Rightarrow> False);
          s1 = (case s0 of c # r \<Rightarrow> if c = CHR ''+'' \<or> c = CHR ''-'' then r else s0 | [] \<Rightarrow> s0)
      in if prefix ''Infinity'' s1 then (if neg then NInf else PInf)
         else (let ip = takeWhile is_digit s1;
                   r1 = dropWhile is_digit s1;
                   dot = (case r1 of c # _ \<Rightarrow> c = CHR ''.'' | [] \<Rightarrow> False);
                   fp = (if dot then takeWhile is_digit (tl r1) else []);
                   r2 = (if dot then dropWhile is_digit (tl r1) else r1);
                   m = of_nat (digits_val 10 digit_val (ip @ fp))
                         * pow10 (exponent_of r2 - int (length fp))
               in if ip = [] \<and> fp = [] then NaN
                  else round64 (if neg then - m else m)))"

text \<open>\<open>parseFloat(v)\<close> of a query parameter that may be absent.\<close>

fun parseFloat_param :: "string option \<Rightarrow> jsnum" where
  "parseFloat_param None = parseFloat ''undefined''"
| "parseFloat_param (Some s) = parseFloat s"

text \<open>
  \<open>parseInt(s)\<close> is a Number: the one nearest to the integer that the digits denote
  (that integer itself up to \<open>2^53\<close>, an infinity from \<open>2^1024\<close> on), and \<open>NaN\<close> when
  there is no digit. An absent query parameter is first turned into the string
  \<open>undefined\<close>.
\<close>

definition parseInt :: "string \<Rightarrow> jsnum" where
  "parseInt s = (case mathInt s of None \<Rightarrow> NaN | Some n \<Rightarrow> round64 (of_int n))"

fun parseInt_param :: "string option \<Rightarrow> jsnum" where
  "parseInt_param None = parseInt ''undefined''"
| "parseInt_param (Some s) = parseInt s"

text \<open>Addition, \<open>Math.ceil\<close> and \<open>Math.min\<close> of two Numbers.\<close>

fun js_add :: "jsnum \<Rightarrow> jsnum \<Rightarrow> jsnum" where
  "js_add NaN _ = NaN"
| "js_add _ NaN = NaN"
| "js_add PInf NInf = NaN"
| "js_add NInf PInf = NaN"
| "js_add PInf _ = PInf"
| "js_add NInf _ = NInf"
| "js_add _ PInf = PInf"
| "js_add _ NInf = NInf"
| "js_add (Fin a) (Fin b) = round64 (a + b)"

fun math_ceil :: "jsnum \<Rightarrow> jsnum" where
  "math_ceil (Fin a) = Fin (of_int \<lceil>a\<rceil>)"
| "math_ceil x = x"

fun math_min :: "jsnum \<Rightarrow> jsnum \<Rightarrow> jsnum" where
  "math_min NaN _ = NaN"
| "math_min _ NaN = NaN"
| "math_min a b = (if js_lt b a then b else a)"

subsection \<open>Printing numbers\<close>

definition digit_char :: "nat \<Rightarrow> char" where
  "digit_char d = ''0123456789'' ! d"

fun digits_of :: "nat \<Rightarrow> string" where
  "digits_of n = (if n < 10 then [digit_char n] else digits_of (n div 10) @ [digit_char (n mod 10)])"

declare digits_of.simps [simp del]

text \<open>
  \<open>Number.prototype.toString\<close> for a finite \<open>a \<ge> 10^21\<close>: the fewest digits \<open>s\<close> (at most
  17 are ever needed) such that \<open>s * 10^(n - k)\<close> rounds to \<open>a\<close>, the closest such \<open>s\<close>
  when there are two, printed in exponent notation.
\<close>

definition shortest_digits :: "rat \<Rightarrow> nat \<times> nat" where
  "shortest_digits a =
     (let n = dec_length (nat \<lfloor>a\<rfloor>);
          cands = concat (map (\<lambda>k.
                    let sc = pow10 (int n - int k);
                        lo = nat \<lfloor>a / sc\<rfloor>;
                        dl = a - of_nat lo * sc;
                        dh = of_nat (lo + 1) * sc - a;
                        both = (if dl < dh \<or> (dl = dh \<and> even lo) then [lo, lo + 1] else [lo + 1, lo])
                    in map (\<lambda>s. (s, k)) (filter (\<lambda>s. round64 (of_nat s * sc) = Fin a) both))
                  [1..<18])
      in case cands of [] \<Rightarrow> (nat \<lfloor>a / pow10 (int n - 17)\<rfloor>, 17) | c # _ \<Rightarrow> c)"

definition number_to_string_large :: "rat \<Rightarrow> string" where
  "number_to_string_large a =
     (let n = dec_length (nat \<lfloor>a\<rfloor>);
          (s, k) = shortest_digits a;
          ds = digits_of s;
          e = n + length ds - k - 1;
          sig = rev (dropWhile (\<lambda>c. c = CHR ''0'') (rev ds))
      in (case sig of [] \<Rightarrow> ''0''
          | d # rest \<Rightarrow> (if rest = [] then [d] else d # CHR ''.'' # rest) @ ''e+'' @ digits_of e))"

text \<open>
  \<open>x.toFixed(f)\<close>: the integer \<open>n\<close> with \<open>n / 10^f\<close> closest to \<open>x\<close> (the larger of two),
  printed with \<open>f\<close> digits after the point; from \<open>10^21\<close> on, \<open>toString\<close> instead.
\<close>

definition toFixed :: "jsnum \<Rightarrow> nat \<Rightarrow> string" where
  "toFixed x f =
     (case x of NaN \<Rightarrow> ''NaN'' | PInf \<Rightarrow> ''Infinity'' | NInf \<Rightarrow> ''-Infinity''
      | Fin r \<Rightarrow>
          (let s = (if r < 0 then ''-'' else []);
               a = \<bar>r\<bar>
           in if 10 ^ 21 \<le> a then s @ number_to_string_large a
              else (let n = nat \<lfloor>a * 10 ^ f + 1 / 2\<rfloor>;
                        m = digits_of n;
                        z = replicate (f + 1 - length m) (CHR ''0'') @ m;
                        k = length z
                    in s @ (if f = 0 then m else take (k - f) z @ ''.'' @ drop (k - f) z))))"

text \<open>
  \<open>x.toExponential(f)\<close>: the \<open>f + 1\<close> digit integer \<open>n\<close> and the exponent \<open>e\<close> with
  \<open>n * 10^(e - f)\<close> closest to \<open>x\<close> (the larger of two).
\<close>

definition toExponential :: "jsnum \<Rightarrow> nat \<Rightarrow> string" where
  "toExponential x f =
     (case x of NaN \<Rightarrow> ''NaN'' | PInf \<Rightarrow> ''Infinity'' | NInf \<Rightarrow> ''-Infinity''
      | Fin r \<Rightarrow>
          (let s = (if r < 0 then ''-'' else []);
               a = \<bar>r\<bar>;
               e0 = (if a = 0 then 0 else ilog10 a);
               n0 = nat \<lfloor>a / pow10 (e0 - int f) + 1 / 2\<rfloor>;
               carry = (n0 = 10 ^ (f + 1));
               e = (if carry then e0 + 1 else e0);
               m = (if a = 0 then replicate (f + 1) (CHR ''0'')
                    else digits_of (if carry then 10 ^ f else n0));
               c = (if e < 0 then ''-'' else ''+'')
           in s @ (if f = 0 then m else take 1 m @ ''.'' @ drop 1 m)
                @ ''e'' @ c @ digits_of (nat \<bar>e\<bar>)))"

section \<open>PriceFormatter\<close>

text \<open>The literals \<open>0.000001\<close> and \<open>0.01\<close> of the source are the Numbers nearest to them.\<close>

definition formatPrice :: "jsnum \<Rightarrow> string" where
  "formatPrice price =
     (if js_eq price (Fin 0) then ''0.00''
      else if js_lt price (round64 (1 / 1000000)) then toExponential price 2
      else if js_lt price (round64 (1 / 100)) then toFixed price 6
      else if js_lt price (Fin 1) then toFixed price 4
      else if js_lt price (Fin 100) then toFixed price 2
      else toFixed price 0)"

section \<open>Paginator\<close>

text \<open>
  \<open>Array.prototype.slice(start, end)\<close>: a negative index counts from the end of the
  array, and both indices are clamped to the array.
\<close>

definition slice :: "'a list \<Rightarrow> int \<Rightarrow> int \<Rightarrow> 'a list" where
  "slice xs start fin =
     (let len = int (length xs);
          k = (if start < 0 then max (len + start) 0 else min start len);
          final = (if fin < 0 then max (len + fin) 0 else min fin len)
      in take (nat (final - k)) (drop (nat k) xs))"

record pagination =
  currentPage :: int
  totalPages :: jsnum
  totalItems :: int
  itemsPerPage :: int
  hasNextPage :: bool
  hasPrevPage :: bool
  startIndex :: int
  endIndex :: int

record 'a paginated =
  data :: "'a list"
  pagination :: pagination

text \<open>
  \<open>Math.ceil(totalItems / limit)\<close>: the quotient is infinite when \<open>limit\<close> is \<open>0\<close>, and
  \<open>NaN\<close> when the list is empty as well.
\<close>

definition ceil_div :: "int \<Rightarrow> int \<Rightarrow> jsnum" where
  "ceil_div n d =
     (if d = 0 then (if n = 0 then NaN else if 0 < n then PInf else NInf)
      else Fin (of_int \<lceil>(of_int n :: rat) / of_int d\<rceil>))"

definition paginateResults :: "'a list \<Rightarrow> int \<Rightarrow> int \<Rightarrow> 'a paginated" where
  "paginateResults xs page limit =
     (let totalItems = int (length xs);
          totalPages = ceil_div totalItems limit;
          startIndex = (page - 1) * limit;
          endIndex = startIndex + limit;
          paginatedData = slice xs startIndex endIndex
      in \<lparr> data = paginatedData,
           pagination = \<lparr> currentPage = page,
                          totalPages = totalPages,
                          totalItems = totalItems,
                          itemsPerPage = limit,
                          hasNextPage = js_lt (Fin (of_int page)) totalPages,
                          hasPrevPage = (page > 1),
                          startIndex = startIndex + 1,
                          endIndex = min endIndex totalItems \<rparr> \<rparr>)"

text \<open>
  The handler calls the paginator with the Numbers that \<open>parseInt\<close> returned, which may
  be infinite, or too large for exact arithmetic. \<open>paginateResults_num\<close> is the
  function on Numbers, every operation rounded as the source computes it; on integers in
  the exact range it is \<open>paginateResults\<close> (lemma \<open>paginateResults_num_int\<close>
  below).

  \<open>to_integer\<close> is \<open>ToIntegerOrInfinity\<close>, with which \<open>slice\<close> reads an index: \<open>NaN\<close>
  is read as \<open>0\<close>, a fraction is dropped, an infinity is kept. \<open>clamp_index\<close> is the
  position in an array of length \<open>len\<close> that \<open>slice\<close> makes of it.
\<close>

fun to_integer :: "jsnum \<Rightarrow> jsnum" where
  "to_integer NaN = Fin 0"
| "to_integer (Fin a) = Fin (of_int (if a < 0 then \<lceil>a\<rceil> else \<lfloor>a\<rfloor>))"
| "to_integer x = x"

definition clamp_index :: "int \<Rightarrow> jsnum \<Rightarrow> int" where
  "clamp_index len v =
     (case to_integer v of
        NInf \<Rightarrow> 0
      | PInf \<Rightarrow> len
      | Fin r \<Rightarrow> (let i = \<lfloor>r\<rfloor> in if i < 0 then max (len + i) 0 else min i len)
      | NaN \<Rightarrow> 0)"

definition slice_num :: "'a list \<Rightarrow> jsnum \<Rightarrow> jsnum \<Rightarrow> 'a list" where
  "slice_num xs start fin =
     (let len = int (length xs);
          k = clamp_index len start;
          final = clamp_index len fin
      in take (nat (final - k)) (drop (nat k) xs))"

record pagination_num =
  num_currentPage :: jsnum
  num_totalPages :: jsnum
  num_totalItems :: int
  num_itemsPerPage :: jsnum
  num_hasNextPage :: bool
  num_hasPrevPage :: bool
  num_startIndex :: jsnum
  num_endIndex :: jsnum

record 'a paginated_num =
  num_data :: "'a list"
  num_pagination :: pagination_num

definition paginateResults_num :: "'a list \<Rightarrow> jsnum \<Rightarrow> jsnum \<Rightarrow> 'a paginated_num" where
  "paginateResults_num xs page limit =
     (let totalItems = int (length xs);
          totalPages = math_ceil (js_div (Fin (of_int totalItems)) limit);
          startIndex = js_mul (js_sub page (Fin 1)) limit;
          endIndex = js_add startIndex limit;
          paginatedData = slice_num xs startIndex endIndex
      in \<lparr> num_data = paginatedData,
           num_pagination = \<lparr> num_currentPage = page,
                              num_totalPages = totalPages,
                              num_totalItems = totalItems,
                              num_itemsPerPage = limit,
                              num_hasNextPage = js_lt page totalPages,
                              num_hasPrevPage = js_gt page (Fin 1),
                              num_startIndex = js_add startIndex (Fin 1),
                              num_endIndex = math_min endIndex (Fin (of_int totalItems)) \<rparr> \<rparr>)"

section \<open>Sorting\<close>

text \<open>
  \<open>Array.prototype.sort(cmp)\<close> is stable: \<open>a\<close> is moved behind a later \<open>b\<close> only when
  \<open>cmp(a, b) > 0\<close>; a result of \<open>0\<close> or \<open>NaN\<close> leaves the two in their order. For a
  comparator that is consistent on the array, this insertion sort returns the one order
  ECMAScript allows; for the others the order is left to the implementation, and only
  the contents of the result (lemma \<open>mset_sort_js\<close> below) are meant.
\<close>

fun insert_js :: "('a \<Rightarrow> 'a \<Rightarrow> jsnum) \<Rightarrow> 'a \<Rightarrow> 'a list \<Rightarrow> 'a list" where
  "insert_js cmp x [] = [x]"
| "insert_js cmp x (y # ys) =
     (if js_gt (cmp x y) (Fin 0) then y # insert_js cmp x ys else x # y # ys)"

definition sort_js :: "('a \<Rightarrow> 'a \<Rightarrow> jsnum) \<Rightarrow> 'a list \<Rightarrow> 'a list" where
  "sort_js cmp xs = foldr (insert_js cmp) xs []"

section \<open>Data model\<close>

text \<open>
  The records of the upstream provider. A field that may be missing is an option; the
  decimal fields arrive as strings, \<open>decimals\<close> as an integer.
\<close>

record asset =
  contractAddress :: "string option"
  symbol :: "string option"
  displayName :: "string option"
  decimals :: "int option"
  dexUsdPrice :: "string option"

record pool =
  address :: "string option"
  token0Address :: "string option"
  token1Address :: "string option"
  reserve0 :: "string option"
  reserve1 :: "string option"
  lpTotalSupplyUsd :: "string option"
  lpTotalSupply :: "string option"
  volume24hUsd :: "string option"
  apy1D :: "string option"
  popularityIndex :: "string option"

text \<open>
  The derived pair. Its \<open>token0.symbol\<close>, \<open>token0.name\<close>, \<open>token0.address\<close> and
  \<open>token0.decimals\<close> are \<open>tok_symbol\<close>, \<open>tok_name\<close>, \<open>tok_address\<close> and \<open>tok_decimals\<close>
  here, its \<open>id\<close> is \<open>pair_id\<close>, \<open>reserves.token0\<close> is \<open>res_token0\<close>, and its
  \<open>popularityIndex\<close> is \<open>popularity\<close>.
\<close>

record token =
  tok_symbol :: "string option"
  tok_name :: "string option"
  tok_address :: "string option"
  tok_decimals :: "int option"
  usdPrice :: jsnum

record reserve_pair =
  res_token0 :: jsnum
  res_token1 :: jsnum

record TradingPair =
  pair_id :: string
  name :: string
  token0 :: token
  token1 :: token
  price :: jsnum
  formattedPrice :: string
  liquidity :: jsnum
  volume24h :: jsnum
  apy :: jsnum
  poolAddress :: string
  reserves :: reserve_pair
  popularity :: jsnum

section \<open>PairDeriver\<close>

text \<open>
  The asset map is a plain object, \<open>const assetMap = {}\<close>, filled in list order, so that
  the last asset of an address wins. Its own properties are the entries that
  \<open>assetMap[k] = asset\<close> has made; its prototype is \<open>Object.prototype\<close> until an
  assignment to the key \<open>__proto__\<close>, which makes no entry and sets the prototype to the
  assigned asset instead: \<open>proto\<close> is that asset.
\<close>

record asset_map =
  own :: "string \<rightharpoonup> asset"
  proto :: "asset option"

definition empty_object :: asset_map where
  "empty_object = \<lparr> own = Map.empty, proto = None \<rparr>"

definition assetMap_add :: "asset_map \<Rightarrow> asset \<Rightarrow> asset_map" where
  "assetMap_add m a =
     (case contractAddress a of
        Some k \<Rightarrow> if k \<noteq> []
                  then (if k = ''__proto__'' then m\<lparr> proto := Some a \<rparr>
                        else m\<lparr> own := (own m)(k \<mapsto> a) \<rparr>)
                  else m
      | None \<Rightarrow> m)"

definition assetMap_of :: "asset list \<Rightarrow> asset_map" where
  "assetMap_of assets = foldl assetMap_add empty_object assets"

text \<open>
  The read \<open>assetMap[k]\<close> looks for \<open>k\<close> among the own properties, then along the
  prototype chain: in the asset that was made the prototype, if any, and in
  \<open>Object.prototype\<close>. So it finds a value also when \<open>k\<close> is a field name of that asset,
  or one of the names every object inherits.

  The source only asks whether the value is truthy, and then reads the five fields of
  an asset from it. A truthy value that is not an asset (a method of \<open>Object.prototype\<close>,
  that object itself, or a non-empty string or a non-zero Number out of a field) has
  none of the five fields and reads as \<open>no_fields\<close>. \<open>assetMap_get\<close> is \<^const>\<open>None\<close>
  when the value is falsy, and otherwise the asset that the value reads as. (An asset of
  the model has the five fields that the source reads, and no others.)
\<close>

definition object_prototype_names :: "string list" where
  "object_prototype_names =
     [''constructor'', ''toString'', ''toLocaleString'', ''valueOf'', ''hasOwnProperty'',
      ''isPrototypeOf'', ''propertyIsEnumerable'', ''__defineGetter__'', ''__defineSetter__'',
      ''__lookupGetter__'', ''__lookupSetter__'']"

definition no_fields :: asset where
  "no_fields = \<lparr> contractAddress = None, symbol = None, displayName = None,
                  decimals = None, dexUsdPrice = None \<rparr>"

text \<open>
  The own property \<open>k\<close> of an asset object: \<^const>\<open>None\<close> when the asset has no such
  field, and otherwise whether the value of the field is truthy.
\<close>

definition asset_field :: "asset \<Rightarrow> string \<Rightarrow> bool option" where
  "asset_field a k =
     (if k = ''contractAddress'' then map_option (\<lambda>v. v \<noteq> []) (contractAddress a)
      else if k = ''symbol'' then map_option (\<lambda>v. v \<noteq> []) (symbol a)
      else if k = ''displayName'' then map_option (\<lambda>v. v \<noteq> []) (displayName a)
      else if k = ''decimals'' then map_option (\<lambda>v. v \<noteq> 0) (decimals a)
      else if k = ''dexUsdPrice'' then map_option (\<lambda>v. v \<noteq> []) (dexUsdPrice a)
      else None)"

definition inherited :: "string \<Rightarrow> asset option" where
  "inherited k = (if k \<in> set object_prototype_names then Some no_fields else None)"

definition assetMap_get :: "asset_map \<Rightarrow> string \<Rightarrow> asset option" where
  "assetMap_get m k =
     (if k = ''__proto__'' then Some (case proto m of Some a \<Rightarrow> a | None \<Rightarrow> no_fields)
      else (case own m k of
              Some a \<Rightarrow> Some a
            | None \<Rightarrow>
                (case proto m of
                   Some a \<Rightarrow> (case asset_field a k of
                                Some t \<Rightarrow> if t then Some no_fields else None
                              | None \<Rightarrow> inherited k)
                 | None \<Rightarrow> inherited k)))"

text \<open>A value inside a template literal: \<open>undefined\<close> prints as the word.\<close>

fun template :: "string option \<Rightarrow> string" where
  "template None = ''undefined''"
| "template (Some s) = s"

text \<open>\<open>a || b\<close> on two values that are a string or \<open>undefined\<close>.\<close>

definition opt_or :: "string option \<Rightarrow> string option \<Rightarrow> string option" where
  "opt_or a b = (if truthy a then a else b)"

text \<open>
  \<open>parseInt(t.decimals || '9')\<close>: \<open>decimals\<close> is an integer Number, which \<open>parseInt\<close>
  gives back as it is (it prints as its digits, below \<open>10^21\<close>), unless it is missing or
  \<open>0\<close>, when the string \<open>9\<close> is parsed instead, to the integer \<open>9\<close>.
\<close>

definition parse_decimals :: "int option \<Rightarrow> int" where
  "parse_decimals d = int_or d (int_or (mathInt ''9'') 0)"

text \<open>The pair built for a pool whose address is \<open>poolAddr\<close> and whose tokens resolved.\<close>

definition make_pair :: "pool \<Rightarrow> string \<Rightarrow> asset \<Rightarrow> asset \<Rightarrow> TradingPair" where
  "make_pair p poolAddr t0 t1 =
     (let token0Reserve = parseFloat (str_or (reserve0 p) ''0'');
          token1Reserve = parseFloat (str_or (reserve1 p) ''0'');
          token0UsdPrice = parseFloat (str_or (dexUsdPrice t0) ''0'');
          token1UsdPrice = parseFloat (str_or (dexUsdPrice t1) ''0'');
          pr = (if js_gt token0UsdPrice (Fin 0) \<and> js_gt token1UsdPrice (Fin 0)
                then js_div token1UsdPrice token0UsdPrice
                else if js_gt token0Reserve (Fin 0)
                then js_mul (js_div token1Reserve token0Reserve)
                       (math_pow10 (parse_decimals (decimals t0) - parse_decimals (decimals t1)))
                else Fin 0)
      in \<lparr> pair_id = poolAddr,
           name = template (symbol t0) @ ''/'' @ template (symbol t1),
           token0 = \<lparr> tok_symbol = symbol t0,
                      tok_name = opt_or (displayName t0) (symbol t0),
                      tok_address = contractAddress t0,
                      tok_decimals = decimals t0,
                      usdPrice = token0UsdPrice \<rparr>,
           token1 = \<lparr> tok_symbol = symbol t1,
                      tok_name = opt_or (displayName t1) (symbol t1),
                      tok_address = contractAddress t1,
                      tok_decimals = decimals t1,
                      usdPrice = token1UsdPrice \<rparr>,
           price = pr,
           formattedPrice = formatPrice pr,
           liquidity = parseFloat (str_or (lpTotalSupplyUsd p) (str_or (lpTotalSupply p) ''0'')),
           volume24h = parseFloat (str_or (volume24hUsd p) ''0''),
           apy = parseFloat (str_or (apy1D p) ''0''),
           poolAddress = poolAddr,
           reserves = \<lparr> res_token0 = token0Reserve, res_token1 = token1Reserve \<rparr>,
           popularity = parseFloat (str_or (popularityIndex p) ''0'') \<rparr>)"

text \<open>What the loop body pushes for one pool: one pair, or nothing.\<close>

definition pool_pairs :: "asset_map \<Rightarrow> pool \<Rightarrow> TradingPair list" where
  "pool_pairs assetMap p =
     (case (token0Address p, token1Address p, address p) of
        (Some a0, Some a1, Some pa) \<Rightarrow>
          if a0 \<noteq> [] \<and> a1 \<noteq> [] \<and> pa \<noteq> [] then
            (case (assetMap_get assetMap a0, assetMap_get assetMap a1) of
               (Some t0, Some t1) \<Rightarrow> [make_pair p pa t0 t1]
             | _ \<Rightarrow> [])
          else []
      | _ \<Rightarrow> [])"

text \<open>The comparator of the canonical order: liquidity, then popularity, both descending.\<close>

definition canonical_cmp :: "TradingPair \<Rightarrow> TradingPair \<Rightarrow> jsnum" where
  "canonical_cmp a b =
     (if \<not> js_eq (liquidity b) (liquidity a) then js_sub (liquidity b) (liquidity a)
      else js_sub (popularity b) (popularity a))"

definition calculateTradingPairs :: "asset list \<Rightarrow> pool list \<Rightarrow> TradingPair list" where
  "calculateTradingPairs assets pools =
     (let assetMap = assetMap_of assets;
          pairs = concat (map (pool_pairs assetMap) pools)
      in sort_js canonical_cmp pairs)"

section \<open>CategoryClassifier and PairQueryEngine\<close>

record filters =
  search :: string
  sortBy :: string
  sortOrder :: string
  minLiquidity :: jsnum
  category :: string

datatype error = TypeError

text \<open>
  \<open>v.toLowerCase().includes(term)\<close> raises a TypeError when \<open>v\<close> is \<open>undefined\<close>, and
  \<open>x || y\<close> evaluates \<open>y\<close> only when \<open>x\<close> is false.
\<close>

definition lower_includes :: "string option \<Rightarrow> string \<Rightarrow> error + bool" where
  "lower_includes v term =
     (case v of None \<Rightarrow> Inl TypeError | Some s \<Rightarrow> Inr (str_includes (toLowerCase s) term))"

fun or_else :: "error + bool \<Rightarrow> error + bool \<Rightarrow> error + bool" where
  "or_else (Inl e) _ = Inl e"
| "or_else (Inr True) _ = Inr True"
| "or_else (Inr False) r = r"

definition search_match :: "string \<Rightarrow> TradingPair \<Rightarrow> error + bool" where
  "search_match searchTerm pair =
     or_else (lower_includes (Some (name pair)) searchTerm)
    (or_else (lower_includes (tok_symbol (token0 pair)) searchTerm)
    (or_else (lower_includes (tok_symbol (token1 pair)) searchTerm)
    (or_else (lower_includes (tok_name (token0 pair)) searchTerm)
    (or_else (lower_includes (tok_name (token1 pair)) searchTerm)
             (lower_includes (Some (poolAddress pair)) searchTerm)))))"

text \<open>\<open>Array.prototype.filter\<close> with a predicate that may raise: the first error ends it.\<close>

fun filter_err :: "('a \<Rightarrow> error + bool) \<Rightarrow> 'a list \<Rightarrow> error + 'a list" where
  "filter_err p [] = Inr []"
| "filter_err p (x # xs) =
     (case p x of
        Inl e \<Rightarrow> Inl e
      | Inr b \<Rightarrow> (case filter_err p xs of
                    Inl e \<Rightarrow> Inl e
                  | Inr ys \<Rightarrow> Inr (if b then x # ys else ys)))"

text \<open>\<open>[a, b].join('')\<close>: an \<open>undefined\<close> element is joined as the empty string.\<close>

fun join_elem :: "string option \<Rightarrow> string" where
  "join_elem None = []"
| "join_elem (Some s) = s"

definition join2 :: "string option \<Rightarrow> string option \<Rightarrow> string" where
  "join2 a b = join_elem a @ join_elem b"

definition pair_symbols :: "TradingPair \<Rightarrow> string" where
  "pair_symbols pair = toLowerCase (join2 (tok_symbol (token0 pair)) (tok_symbol (token1 pair)))"

definition pair_names :: "TradingPair \<Rightarrow> string" where
  "pair_names pair = toLowerCase (join2 (tok_name (token0 pair)) (tok_name (token1 pair)))"

text \<open>The predicate of the category filter, the \<open>switch\<close> of the source with its cases in order.\<close>

definition category_matches :: "string \<Rightarrow> TradingPair \<Rightarrow> bool" where
  "category_matches cat pair =
     (let symbols = pair_symbols pair; names = pair_names pair in
      if cat = ''stablecoins'' then
        str_includes symbols ''usdt'' \<or> str_includes symbols ''usd'' \<or> str_includes symbols ''usdc'' \<or>
        str_includes symbols ''dai'' \<or> str_includes symbols ''busd'' \<or> str_includes symbols ''tusd'' \<or>
        str_includes names ''tether'' \<or> str_includes names ''usd coin''
      else if cat = ''meme'' then
        str_includes symbols ''not'' \<or> str_includes symbols ''notcoin'' \<or>
        str_includes symbols ''hmstr'' \<or> str_includes symbols ''hamster'' \<or>
        str_includes symbols ''dogs'' \<or> str_includes symbols ''dog'' \<or>
        str_includes symbols ''fish'' \<or> str_includes symbols ''tpet'' \<or>
        str_includes symbols ''doge'' \<or> str_includes symbols ''shib'' \<or>
        str_includes symbols ''pepe'' \<or> str_includes symbols ''wojak'' \<or>
        str_includes symbols ''cat'' \<or> str_includes symbols ''duck'' \<or>
        str_includes symbols ''frog'' \<or> str_includes symbols ''bear'' \<or>
        str_includes symbols ''meme'' \<or> str_includes symbols ''moon'' \<or>
        str_includes symbols ''inu'' \<or> str_includes symbols ''floki'' \<or>
        str_includes symbols ''elon'' \<or> str_includes symbols ''baby'' \<or>
        str_includes symbols ''safe'' \<or> str_includes symbols ''rocket'' \<or>
        str_includes names ''meme'' \<or> str_includes names ''dog'' \<or>
        str_includes names ''cat'' \<or> str_includes names ''fish'' \<or>
        str_includes names ''hamster'' \<or> str_includes names ''notcoin''
      else if cat = ''defi'' then
        str_includes symbols ''ton'' \<or> str_includes symbols ''ston'' \<or>
        str_includes symbols ''hton'' \<or> str_includes symbols ''tston'' \<or>
        str_includes symbols ''uni'' \<or> str_includes symbols ''cake'' \<or>
        str_includes symbols ''aave'' \<or> str_includes symbols ''comp'' \<or>
        str_includes symbols ''curve'' \<or> str_includes symbols ''bal'' \<or>
        str_includes symbols ''sushi'' \<or> str_includes symbols ''1inch'' \<or>
        str_includes symbols ''dedust'' \<or> str_includes symbols ''storm'' \<or>
        str_includes symbols ''lp'' \<or> str_includes symbols ''pool'' \<or>
        str_includes names ''defi'' \<or> str_includes names ''staked'' \<or>
        str_includes names ''liquid'' \<or> str_includes names ''vault''
      else True)"

text \<open>
  The comparator of the sort. \<open>String.prototype.localeCompare\<close> is the collation of the
  host, a parameter \<open>lc\<close> of the model; it returns an integer.
\<close>

definition sort_cmp :: "(string \<Rightarrow> string \<Rightarrow> int) \<Rightarrow> filters \<Rightarrow> TradingPair \<Rightarrow> TradingPair \<Rightarrow> jsnum" where
  "sort_cmp lc f a b =
     (let comparison =
            (if sortBy f = ''liquidity'' then js_sub (liquidity b) (liquidity a)
             else if sortBy f = ''volume'' then js_sub (volume24h b) (volume24h a)
             else if sortBy f = ''apy'' then js_sub (apy b) (apy a)
             else if sortBy f = ''name'' then Fin (of_int (lc (name a) (name b)))
             else if sortBy f = ''price'' then js_sub (price b) (price a)
             else js_sub (liquidity b) (liquidity a))
      in if sortOrder f = ''asc'' then js_neg comparison else comparison)"

definition filterAndSortPairs ::
    "(string \<Rightarrow> string \<Rightarrow> int) \<Rightarrow> TradingPair list \<Rightarrow> filters \<Rightarrow> error + TradingPair list" where
  "filterAndSortPairs lc pairs f =
     (case (if search f \<noteq> []
            then filter_err (search_match (toLowerCase (search f))) pairs
            else Inr pairs) of
        Inl e \<Rightarrow> Inl e
      | Inr searched \<Rightarrow>
          (let floored = (if js_gt (minLiquidity f) (Fin 0)
                          then filter (\<lambda>pair. js_ge (liquidity pair) (minLiquidity f)) searched
                          else searched);
               categorised = (if category f \<noteq> ''all''
                              then filter (category_matches (category f)) floored
                              else floored)
           in Inr (sort_js (sort_cmp lc f) categorised)))"

section \<open>QueryPipeline\<close>

text \<open>The query string of the request: each parameter is a string or absent.\<close>

record query =
  q_page :: "string option"
  q_limit :: "string option"
  q_search :: "string option"
  q_sortBy :: "string option"
  q_sortOrder :: "string option"
  q_minLiquidity :: "string option"
  q_category :: "string option"

definition page_param :: "query \<Rightarrow> jsnum" where
  "page_param q = num_or (parseInt_param (q_page q)) (Fin 1)"

definition limit_param :: "query \<Rightarrow> jsnum" where
  "limit_param q = num_or (parseInt_param (q_limit q)) (Fin 50)"

definition filters_param :: "query \<Rightarrow> filters" where
  "filters_param q =
     \<lparr> search = str_or (q_search q) [],
       sortBy = str_or (q_sortBy q) ''liquidity'',
       sortOrder = str_or (q_sortOrder q) ''desc'',
       minLiquidity = num_or (parseFloat_param (q_minLiquidity q)) (Fin 0),
       category = str_or (q_category q) ''all'' \<rparr>"

text \<open>
  The body of a successful response (the time stamp and the constant flags are left
  out), and the three answers of the handler: the response, the refusal of a method
  other than \<open>GET\<close>, and the answer of the \<open>catch\<close> block. The two fetched lists are
  arguments.
\<close>

record response =
  resp_data :: "TradingPair list"
  resp_pagination :: pagination_num
  resp_filters :: filters
  totalPairs :: int

datatype reply = Json200 response | Json405 | Json500 error

definition handler ::
    "(string \<Rightarrow> string \<Rightarrow> int) \<Rightarrow> string \<Rightarrow> query \<Rightarrow> asset list \<Rightarrow> pool list \<Rightarrow> reply" where
  "handler lc method q assets pools =
     (if method \<noteq> ''GET'' then Json405
      else (let pairs = calculateTradingPairs assets pools in
            case filterAndSortPairs lc pairs (filters_param q) of
              Inl e \<Rightarrow> Json500 e
            | Inr filteredPairs \<Rightarrow>
                (let paginatedResult =
                       paginateResults_num filteredPairs (page_param q) (limit_param q)
                 in Json200 \<lparr> resp_data = num_data paginatedResult,
                              resp_pagination = num_pagination paginatedResult,
                              resp_filters = filters_param q,
                              totalPairs = int (length pairs) \<rparr>)))"

section \<open>The keyword lists of the classifier\<close>

text \<open>
  The keywords the source tests against the symbols and against the names of a
  category, in the order of the source.
\<close>

definition symbol_keywords :: "string \<Rightarrow> string list" where
  "symbol_keywords cat =
     (if cat = ''stablecoins'' then [''usdt'', ''usd'', ''usdc'', ''dai'', ''busd'', ''tusd'']
      else if cat = ''meme'' then
        [''not'', ''notcoin'', ''hmstr'', ''hamster'', ''dogs'', ''dog'', ''fish'', ''tpet'',
         ''doge'', ''shib'', ''pepe'', ''wojak'', ''cat'', ''duck'', ''frog'', ''bear'',
         ''meme'', ''moon'', ''inu'', ''floki'', ''elon'', ''baby'', ''safe'', ''rocket'']
      else if cat = ''defi'' then
        [''ton'', ''ston'', ''hton'', ''tston'', ''uni'', ''cake'', ''aave'', ''comp'',
         ''curve'', ''bal'', ''sushi'', ''1inch'', ''dedust'', ''storm'', ''lp'', ''pool'']
      else [])"

definition name_keywords :: "string \<Rightarrow> string list" where
  "name_keywords cat =
     (if cat = ''stablecoins'' then [''tether'', ''usd coin'']
      else if cat = ''meme'' then [''meme'', ''dog'', ''cat'', ''fish'', ''hamster'', ''notcoin'']
      else if cat = ''defi'' then [''defi'', ''staked'', ''liquid'', ''vault'']
      else [])"

text \<open>
  The keyword sets as the glossary of the specification lists them, and the matching
  rule in its words: a pair matches when any keyword of the set is a substring of either
  concatenation.
\<close>

definition glossary_keywords :: "string \<Rightarrow> string list" where
  "glossary_keywords cat =
     (if cat = ''stablecoins'' then
        [''usdt'', ''usd'', ''usdc'', ''dai'', ''busd'', ''tusd'', ''tether'', ''usd coin'']
      else if cat = ''meme'' then
        [''not'', ''notcoin'', ''hmstr'', ''hamster'', ''dogs'', ''dog'', ''fish'', ''tpet'',
         ''doge'', ''shib'', ''pepe'', ''wojak'', ''cat'', ''duck'', ''frog'', ''bear'',
         ''meme'', ''moon'', ''inu'', ''floki'', ''elon'', ''baby'', ''safe'', ''rocket'']
      else if cat = ''defi'' then
        [''ton'', ''ston'', ''hton'', ''tston'', ''uni'', ''cake'', ''aave'', ''comp'',
         ''curve'', ''bal'', ''sushi'', ''1inch'', ''dedust'', ''storm'', ''lp'', ''pool'',
         ''defi'', ''staked'', ''liquid'', ''vault'']
      else [])"

definition spec_matches :: "string \<Rightarrow> TradingPair \<Rightarrow> bool" where
  "spec_matches cat pair =
     list_ex (\<lambda>k. str_includes (pair_symbols pair) k \<or> str_includes (pair_names pair) k)
       (glossary_keywords cat)"

section \<open>The join condition\<close>

text \<open>
  The join as the specification words it. An address resolves when it is a non-empty
  string and the contract address of an asset of the list; a pool can be joined when its
  own address is a non-empty string and both its token addresses resolve.
\<close>

definition resolves :: "asset list \<Rightarrow> string option \<Rightarrow> bool" where
  "resolves assets a =
     (case a of Some k \<Rightarrow> k \<noteq> [] \<and> list_ex (\<lambda>x. contractAddress x = Some k) assets
      | None \<Rightarrow> False)"

definition joinable :: "asset list \<Rightarrow> pool \<Rightarrow> bool" where
  "joinable assets p =
     (truthy (address p) \<and> resolves assets (token0Address p) \<and> resolves assets (token1Address p))"

text \<open>
  The addresses for which a read of the asset map is a read of its entries: the strings
  other than \<open>__proto__\<close> and the names that every object inherits.
\<close>

definition plain_key :: "string option \<Rightarrow> bool" where
  "plain_key a =
     (case a of Some k \<Rightarrow> k \<noteq> ''__proto__'' \<and> k \<notin> set object_prototype_names | None \<Rightarrow> True)"

section \<open>Sort keys\<close>

text \<open>
  The field the sort compares for a numeric \<open>sortBy\<close> (liquidity for an unknown one), and
  when two pairs have equal sort keys: the same Number in that field, or names that the
  collation takes as equal when the sort is by name. \<open>filtered_pairs\<close> is
  \<open>filterAndSortPairs\<close> up to its sort. \<open>ord_key\<close> embeds the Numbers other than \<open>NaN\<close>
  into a linear order, the infinities at the two ends.
\<close>

definition sort_field :: "filters \<Rightarrow> TradingPair \<Rightarrow> jsnum" where
  "sort_field f pair =
     (if sortBy f = ''volume'' then volume24h pair
      else if sortBy f = ''apy'' then apy pair
      else if sortBy f = ''price'' then price pair
      else liquidity pair)"

definition same_key :: "(string \<Rightarrow> string \<Rightarrow> int) \<Rightarrow> filters \<Rightarrow> TradingPair \<Rightarrow> TradingPair \<Rightarrow> bool" where
  "same_key lc f a b =
     (if sortBy f = ''name'' then lc (name a) (name b) = 0
      else sort_field f a = sort_field f b)"

definition filtered_pairs :: "TradingPair list \<Rightarrow> filters \<Rightarrow> error + TradingPair list" where
  "filtered_pairs pairs f =
     (case (if search f \<noteq> []
            then filter_err (search_match (toLowerCase (search f))) pairs
            else Inr pairs) of
        Inl e \<Rightarrow> Inl e
      | Inr searched \<Rightarrow>
          (let floored = (if js_gt (minLiquidity f) (Fin 0)
                          then filter (\<lambda>pair. js_ge (liquidity pair) (minLiquidity f)) searched
                          else searched)
           in Inr (if category f \<noteq> ''all''
                   then filter (category_matches (category f)) floored
                   else floored)))"

definition ord_key :: "jsnum \<Rightarrow> int \<times> rat" where
  "ord_key x = (case x of NInf \<Rightarrow> (- 1, 0) | Fin r \<Rightarrow> (0, r) | PInf \<Rightarrow> (1, 0) | NaN \<Rightarrow> (2, 0))"

section \<open>Concrete inputs\<close>

text \<open>A collation for the examples: every two strings compare equal.\<close>

definition lc_equal :: "string \<Rightarrow> string \<Rightarrow> int" where
  "lc_equal a b = 0"

definition no_query :: query where
  "no_query = \<lparr> q_page = None, q_limit = None, q_search = None, q_sortBy = None,
                 q_sortOrder = None, q_minLiquidity = None, q_category = None \<rparr>"



text \<open>A pair of two tokens \<open>ABC\<close> and \<open>DEF\<close> whose first display name is \<open>USD Fund\<close>.\<close>

definition usd_fund_pair :: TradingPair where
  "usd_fund_pair =
     \<lparr> pair_id = ''P1'', name = ''ABC/DEF'',
       token0 = \<lparr> tok_symbol = Some ''ABC'', tok_name = Some ''USD Fund'',
                  tok_address = Some ''T0'', tok_decimals = Some 9, usdPrice = Fin 0 \<rparr>,
       token1 = \<lparr> tok_symbol = Some ''DEF'', tok_name = Some ''X'',
                  tok_address = Some ''T1'', tok_decimals = Some 9, usdPrice = Fin 0 \<rparr>,
       price = Fin 5, formattedPrice = ''5.00'', liquidity = Fin 1000, volume24h = Fin 0,
       apy = Fin 0, poolAddress = ''P1'',
       reserves = \<lparr> res_token0 = Fin 100, res_token1 = Fin 500 \<rparr>, popularity = Fin 0 \<rparr>"

text \<open>
  Scenario B of the specification: the assets \<open>TON\<close> and \<open>STON\<close> at the addresses \<open>T0\<close>
  and \<open>T1\<close>, nine decimals each and no USD price, and the pool \<open>P1\<close> of the two with the
  reserves \<open>100\<close> and \<open>500\<close>.
\<close>

definition asset_TON :: asset where
  "asset_TON = \<lparr> contractAddress = Some ''T0'', symbol = Some ''TON'', displayName = None,
                  decimals = Some 9, dexUsdPrice = None \<rparr>"

definition asset_STON :: asset where
  "asset_STON = \<lparr> contractAddress = Some ''T1'', symbol = Some ''STON'', displayName = None,
                   decimals = Some 9, dexUsdPrice = None \<rparr>"

definition pool_P1 :: pool where
  "pool_P1 = \<lparr> address = Some ''P1'', token0Address = Some ''T0'', token1Address = Some ''T1'',
               reserve0 = Some ''100'', reserve1 = Some ''500'', lpTotalSupplyUsd = Some ''1000'',
               lpTotalSupply = None, volume24hUsd = None, apy1D = None, popularityIndex = None \<rparr>"

text \<open>A pair of \<open>USDT\<close> and \<open>TON\<close>, as in scenario D of the specification.\<close>

definition usdt_ton_pair :: TradingPair where
  "usdt_ton_pair =
     \<lparr> pair_id = ''P2'', name = ''USDT/TON'',
       token0 = \<lparr> tok_symbol = Some ''USDT'', tok_name = Some ''Tether USD'',
                  tok_address = Some ''T2'', tok_decimals = Some 6, usdPrice = Fin 1 \<rparr>,
       token1 = \<lparr> tok_symbol = Some ''TON'', tok_name = Some ''Toncoin'',
                  tok_address = Some ''T0'', tok_decimals = Some 9, usdPrice = Fin 5 \<rparr>,
       price = Fin 5, formattedPrice = ''5.00'', liquidity = Fin 2000, volume24h = Fin 0,
       apy = Fin 0, poolAddress = ''P2'',
       reserves = \<lparr> res_token0 = Fin 500, res_token1 = Fin 100 \<rparr>, popularity = Fin 0 \<rparr>"


text \<open>
  A pool whose token addresses are \<open>constructor\<close> and \<open>toString\<close>, which no asset of
  scenario B has.
\<close>

definition pool_inherited :: pool where
  "pool_inherited =
     \<lparr> address = Some ''P4'', token0Address = Some ''constructor'',
       token1Address = Some ''toString'', reserve0 = Some ''100'', reserve1 = Some ''500'',
       lpTotalSupplyUsd = Some ''1000'', lpTotalSupply = None, volume24hUsd = None,
       apy1D = None, popularityIndex = None \<rparr>"

text \<open>
  The filters of a query without parameters, and a copy of the pair of \<open>USDT\<close> and \<open>TON\<close>
  with the liquidity of the pair \<open>ABC/DEF\<close>.
\<close>

definition default_filters :: filters where
  "default_filters = \<lparr> search = [], sortBy = ''liquidity'', sortOrder = ''desc'',
                        minLiquidity = Fin 0, category = ''all'' \<rparr>"

definition tie_pair :: TradingPair where
  "tie_pair = usdt_ton_pair\<lparr> liquidity := Fin 1000 \<rparr>"

section \<open>Evaluation of the scanners and printers\<close>

lemma bit_length_0: "bit_length 0 = 0"
  by (simp add: bit_length.simps)

lemma bit_length_pos: "0 < n \<Longrightarrow> bit_length n = Suc (bit_length (n div 2))"
  by (subst bit_length.simps) simp

lemma digits_of_small: "n < 10 \<Longrightarrow> digits_of n = [digit_char n]"
  by (simp add: digits_of.simps)

lemma digits_of_large:
  "10 \<le> n \<Longrightarrow> digits_of n = digits_of (n div 10) @ [digit_char (n mod 10)]"
  by (subst digits_of.simps) simp

lemmas scan_defs = is_ws_def is_digit_def digits_val_def digit_val_def




lemma mathInt_9: "mathInt ''9'' = Some 9"
  by (simp add: mathInt_def scan_defs)

lemma mathInt_undefined: "mathInt ''undefined'' = None"
  by (simp add: mathInt_def scan_defs)

lemma parseFloat_undefined: "parseFloat ''undefined'' = NaN"
  by (simp add: parseFloat_def scan_defs)

lemma parse_decimals_eq: "parse_decimals d = int_or d 9"
  by (simp add: parse_decimals_def mathInt_9)

lemma floor_rat_numeral:
  "\<lfloor>(numeral a :: rat) / numeral b\<rfloor> = (numeral a :: int) div numeral b"
  using floor_divide_of_int_eq [of "numeral a" "numeral b", where ?'a = rat] by simp

lemma round64_1: "round64 1 = Fin 1"
  apply (simp add: round64_def Let_def)
  apply (simp add: ilog2_def bit_length_0 bit_length_pos)
  apply (simp add: pow2_def)
  apply (simp add: round_half_even_def Let_def)
  done

lemma round64_5: "round64 5 = Fin 5"
  apply (simp add: round64_def Let_def)
  apply (simp add: ilog2_def bit_length_0 bit_length_pos)
  apply (simp add: pow2_def)
  apply (simp add: round_half_even_def Let_def)
  done


lemma round64_100: "round64 100 = Fin 100"
  apply (simp add: round64_def Let_def)
  apply (simp add: ilog2_def bit_length_0 bit_length_pos)
  apply (simp add: pow2_def)
  apply (simp add: round_half_even_def Let_def)
  done

lemma round64_500: "round64 500 = Fin 500"
  apply (simp add: round64_def Let_def)
  apply (simp add: ilog2_def bit_length_0 bit_length_pos)
  apply (simp add: pow2_def)
  apply (simp add: round_half_even_def Let_def)
  done

lemma round64_1000: "round64 1000 = Fin 1000"
  apply (simp add: round64_def Let_def)
  apply (simp add: ilog2_def bit_length_0 bit_length_pos)
  apply (simp add: pow2_def)
  apply (simp add: round_half_even_def Let_def)
  done

lemma round64_50: "round64 50 = Fin 50"
  apply (simp add: round64_def Let_def)
  apply (simp add: ilog2_def bit_length_0 bit_length_pos)
  apply (simp add: pow2_def)
  apply (simp add: round_half_even_def Let_def)
  done





lemma parseInt_undefined: "parseInt ''undefined'' = NaN"
  by (simp add: parseInt_def mathInt_undefined)

text \<open>The Numbers that the literals \<open>0.000001\<close> and \<open>0.01\<close> denote.\<close>

lemma round64_millionth:
  "round64 (1 / 1000000) = Fin (4722366482869645 / 4722366482869645213696)"
  apply (simp add: round64_def Let_def)
  apply (simp add: ilog2_def bit_length_0 bit_length_pos)
  apply (simp add: pow2_def)
  apply (simp add: round_half_even_def Let_def floor_rat_numeral)
  done

lemma round64_hundredth:
  "round64 (1 / 100) = Fin (5764607523034235 / 576460752303423488)"
  apply (simp add: round64_def Let_def)
  apply (simp add: ilog2_def bit_length_0 bit_length_pos)
  apply (simp add: pow2_def)
  apply (simp add: round_half_even_def Let_def floor_rat_numeral)
  done

lemmas float_scan_defs = parseFloat_def scan_defs exponent_of_def pow10_def

lemma parseFloat_0: "parseFloat ''0'' = Fin 0"
  by (simp add: float_scan_defs round64_def)



lemma parseFloat_100: "parseFloat ''100'' = Fin 100"
  by (simp add: float_scan_defs round64_100)

lemma parseFloat_500: "parseFloat ''500'' = Fin 500"
  by (simp add: float_scan_defs round64_500)

lemma parseFloat_1000: "parseFloat ''1000'' = Fin 1000"
  by (simp add: float_scan_defs round64_1000)

lemma math_pow10_0: "math_pow10 0 = Fin 1"
  by (simp add: math_pow10_def pow10_def round64_1)

lemma formatPrice_5: "formatPrice (Fin 5) = ''5.00''"
  by (simp add: formatPrice_def round64_millionth round64_hundredth toFixed_def
      digits_of_small digits_of_large digit_char_def Let_def floor_rat_numeral)

section \<open>Properties of the classifier\<close>

lemma category_stablecoins:
  "category_matches ''stablecoins'' pair =
     (list_ex (str_includes (pair_symbols pair)) (symbol_keywords ''stablecoins'') \<or>
      list_ex (str_includes (pair_names pair)) (name_keywords ''stablecoins''))"
  by (simp add: category_matches_def symbol_keywords_def name_keywords_def Let_def disj_assoc)

lemma category_meme:
  "category_matches ''meme'' pair =
     (list_ex (str_includes (pair_symbols pair)) (symbol_keywords ''meme'') \<or>
      list_ex (str_includes (pair_names pair)) (name_keywords ''meme''))"
  by (simp add: category_matches_def symbol_keywords_def name_keywords_def Let_def disj_assoc)

lemma category_defi:
  "category_matches ''defi'' pair =
     (list_ex (str_includes (pair_symbols pair)) (symbol_keywords ''defi'') \<or>
      list_ex (str_includes (pair_names pair)) (name_keywords ''defi''))"
  by (simp add: category_matches_def symbol_keywords_def name_keywords_def Let_def disj_assoc)

lemma keywords_split:
  assumes "cat = ''stablecoins'' \<or> cat = ''meme'' \<or> cat = ''defi''"
  shows "set (symbol_keywords cat) \<union> set (name_keywords cat) = set (glossary_keywords cat)"
  using assms by (auto simp: symbol_keywords_def name_keywords_def glossary_keywords_def)

text \<open>
  C1, as the source has it. For the categories \<open>stablecoins\<close>, \<open>meme\<close> and \<open>defi\<close> the
  classifier is true exactly when a symbol keyword of the category occurs in the
  lower-cased concatenation of the two symbols, or a name keyword of the category occurs
  in the lower-cased concatenation of the two display names. The two lists together are
  the keyword set of the glossary, so a match of the classifier is a match by the rule of
  the specification; the converse does not hold.
\<close>

theorem category_matches_keywords:
  assumes "cat = ''stablecoins'' \<or> cat = ''meme'' \<or> cat = ''defi''"
  shows "category_matches cat pair
           = ((\<exists>k \<in> set (symbol_keywords cat). str_includes (pair_symbols pair) k)
              \<or> (\<exists>k \<in> set (name_keywords cat). str_includes (pair_names pair) k))
       \<and> set (symbol_keywords cat) \<union> set (name_keywords cat) = set (glossary_keywords cat)
       \<and> (category_matches cat pair \<longrightarrow> spec_matches cat pair)"
proof -
  have eq: "category_matches cat pair
              = ((\<exists>k \<in> set (symbol_keywords cat). str_includes (pair_symbols pair) k)
                 \<or> (\<exists>k \<in> set (name_keywords cat). str_includes (pair_names pair) k))"
    using assms category_stablecoins category_meme category_defi
    by (auto simp only: list_ex_iff)
  have un: "set (symbol_keywords cat) \<union> set (name_keywords cat) = set (glossary_keywords cat)"
    using assms by (rule keywords_split)
  have "spec_matches cat pair" if "category_matches cat pair"
  proof -
    from that eq obtain k where k: "k \<in> set (symbol_keywords cat) \<union> set (name_keywords cat)"
      and "str_includes (pair_symbols pair) k \<or> str_includes (pair_names pair) k"
      by blast
    then show ?thesis
      unfolding spec_matches_def list_ex_iff un by blast
  qed
  with eq un show ?thesis by blast
qed

theorem category_matches_keywords_witness:
  "category_matches ''stablecoins'' usdt_ton_pair
   \<and> ''usdt'' \<in> set (symbol_keywords ''stablecoins'')
   \<and> str_includes (pair_symbols usdt_ton_pair) ''usdt''
   \<and> spec_matches ''stablecoins'' usdt_ton_pair"
proof -
  have a: "''usdt'' \<in> set (symbol_keywords ''stablecoins'')"
    by (simp add: symbol_keywords_def)
  have b: "str_includes (pair_symbols usdt_ton_pair) ''usdt''"
    by (simp add: usdt_ton_pair_def pair_symbols_def join2_def toLowerCase_def toLowerChar_def)
  show ?thesis
    using category_matches_keywords [of "''stablecoins''" usdt_ton_pair] a b by blast
qed

text \<open>
  The claim as stated fails: \<open>usd\<close> is a keyword of \<open>stablecoins\<close> and occurs in the
  display names of this pair (\<open>USD Fund\<close>), but the source looks for \<open>usd\<close> in the symbols
  only, and for \<open>tether\<close> and \<open>usd coin\<close> in the names.
\<close>

theorem category_counterexample:
  "spec_matches ''stablecoins'' usd_fund_pair \<and> \<not> category_matches ''stablecoins'' usd_fund_pair"
  by (simp add: spec_matches_def category_matches_def glossary_keywords_def usd_fund_pair_def
      pair_symbols_def pair_names_def join2_def toLowerCase_def toLowerChar_def Let_def)

section \<open>Properties of the query parameters\<close>

lemma handler_Json200:
  assumes "handler lc method q assets pools = Json200 r"
  obtains filtered where
    "filterAndSortPairs lc (calculateTradingPairs assets pools) (filters_param q) = Inr filtered"
    "r = \<lparr> resp_data = num_data (paginateResults_num filtered (page_param q) (limit_param q)),
           resp_pagination
             = num_pagination (paginateResults_num filtered (page_param q) (limit_param q)),
           resp_filters = filters_param q,
           totalPairs = int (length (calculateTradingPairs assets pools)) \<rparr>"
  using assms by (auto simp: handler_def Let_def split: if_splits sum.splits)






section \<open>Properties of the join\<close>

lemma mset_insert_js: "mset (insert_js c x ys) = add_mset x (mset ys)"
  by (induction ys) simp_all

lemma mset_sort_js: "mset (sort_js c xs) = mset xs"
  by (induction xs) (simp_all add: sort_js_def mset_insert_js)

lemma length_sort_js: "length (sort_js c xs) = length xs"
  using mset_sort_js [of c xs] by (metis size_mset)

lemma set_sort_js: "set (sort_js c xs) = set xs"
  using mset_sort_js [of c xs] by (metis set_mset_mset)

lemma pair_id_make_pair: "pair_id (make_pair p pa t0 t1) = pa"
  by (simp add: make_pair_def Let_def)

lemma pool_pairs_shape:
  "pool_pairs m p = [] \<or>
   (\<exists>a0 a1 pa t0 t1. token0Address p = Some a0 \<and> token1Address p = Some a1 \<and>
      address p = Some pa \<and> assetMap_get m a0 = Some t0 \<and> assetMap_get m a1 = Some t1 \<and>
      pool_pairs m p = [make_pair p pa t0 t1])"
  by (simp add: pool_pairs_def split: option.splits)

lemma pool_pairs_cases:
  assumes "x \<in> set (pool_pairs m p)"
  obtains a0 a1 pa t0 t1 where
    "token0Address p = Some a0" "token1Address p = Some a1" "address p = Some pa"
    "assetMap_get m a0 = Some t0" "assetMap_get m a1 = Some t1" "x = make_pair p pa t0 t1"
  using assms pool_pairs_shape [of m p] by auto

lemma pool_pairs_id: "x \<in> set (pool_pairs m p) \<Longrightarrow> address p = Some (pair_id x)"
  by (erule pool_pairs_cases) (simp add: pair_id_make_pair)

lemma assetMap_add_falsy:
  "contractAddress a = None \<or> contractAddress a = Some [] \<Longrightarrow> assetMap_add m a = m"
  by (auto simp: assetMap_add_def)

lemma assetMap_of_skip:
  "contractAddress a = None \<or> contractAddress a = Some [] \<Longrightarrow>
     assetMap_of (xs @ a # ys) = assetMap_of (xs @ ys)"
  by (simp add: assetMap_of_def assetMap_add_falsy)

lemma pool_pairs_falsy_token:
  "token0Address p = None \<or> token0Address p = Some [] \<or>
   token1Address p = None \<or> token1Address p = Some [] \<Longrightarrow> pool_pairs m p = []"
  by (auto simp: pool_pairs_def split: option.splits)

text \<open>
  The entries of the asset map are the non-empty contract addresses of the assets other
  than \<open>__proto__\<close>, and its prototype stays \<open>Object.prototype\<close> unless an asset has the
  contract address \<open>__proto__\<close>.
\<close>

lemma dom_own_assetMap_add:
  "dom (own (assetMap_add m a))
     = dom (own m) \<union> {k. k \<noteq> [] \<and> k \<noteq> ''__proto__'' \<and> contractAddress a = Some k}"
  by (auto simp: assetMap_add_def split: option.splits if_splits)

lemma dom_own_foldl_assetMap_add:
  "dom (own (foldl assetMap_add m assets))
     = dom (own m)
         \<union> {k. k \<noteq> [] \<and> k \<noteq> ''__proto__'' \<and> (\<exists>a \<in> set assets. contractAddress a = Some k)}"
  by (induction assets arbitrary: m) (auto simp: dom_own_assetMap_add)

lemma dom_own_assetMap_of:
  "dom (own (assetMap_of assets))
     = {k. k \<noteq> [] \<and> k \<noteq> ''__proto__'' \<and> (\<exists>a \<in> set assets. contractAddress a = Some k)}"
  by (simp add: assetMap_of_def dom_own_foldl_assetMap_add empty_object_def)

lemma proto_assetMap_add:
  "contractAddress a \<noteq> Some ''__proto__'' \<Longrightarrow> proto (assetMap_add m a) = proto m"
  by (auto simp: assetMap_add_def split: option.splits)

lemma proto_foldl_assetMap_add:
  "\<forall>a \<in> set assets. contractAddress a \<noteq> Some ''__proto__'' \<Longrightarrow>
     proto (foldl assetMap_add m assets) = proto m"
  by (induction assets arbitrary: m) (simp_all add: proto_assetMap_add)

lemma proto_assetMap_of:
  "\<forall>a \<in> set assets. contractAddress a \<noteq> Some ''__proto__'' \<Longrightarrow>
     proto (assetMap_of assets) = None"
  by (simp add: assetMap_of_def proto_foldl_assetMap_add empty_object_def)

lemma assetMap_get_plain:
  assumes "\<forall>a \<in> set assets. contractAddress a \<noteq> Some ''__proto__''"
    and "plain_key (Some k)"
  shows "assetMap_get (assetMap_of assets) k = own (assetMap_of assets) k"
  using assms
  by (auto simp: assetMap_get_def plain_key_def inherited_def proto_assetMap_of
      split: option.splits)

lemma resolves_plain:
  assumes "\<forall>a \<in> set assets. contractAddress a \<noteq> Some ''__proto__''"
    and "plain_key (Some k)" and "k \<noteq> []"
  shows "resolves assets (Some k) = (assetMap_get (assetMap_of assets) k \<noteq> None)"
proof -
  have "(own (assetMap_of assets) k \<noteq> None)
          = (\<exists>a \<in> set assets. contractAddress a = Some k)"
    using dom_own_assetMap_of [of assets] assms(2,3)
    by (auto simp: plain_key_def dom_def)
  then show ?thesis
    by (simp add: resolves_def list_ex_iff assetMap_get_plain [OF assms(1,2)] assms(3))
qed

text \<open>
  The join on plain addresses. When no asset has the contract address \<open>__proto__\<close> and
  the token addresses of a pool are not names that every object inherits, the pool
  contributes one pair, which carries its address, exactly when it can be joined, and no
  pair otherwise.
\<close>

lemma join_plain:
  assumes "\<forall>a \<in> set assets. contractAddress a \<noteq> Some ''__proto__''"
    and "plain_key (token0Address p)" and "plain_key (token1Address p)"
  shows "length (pool_pairs (assetMap_of assets) p) = (if joinable assets p then 1 else 0)"
proof (cases "truthy (address p) \<and> truthy (token0Address p) \<and> truthy (token1Address p)")
  case True
  then obtain pa a0 a1 where p: "address p = Some pa" "token0Address p = Some a0"
    "token1Address p = Some a1" and ne: "pa \<noteq> []" "a0 \<noteq> []" "a1 \<noteq> []"
    by (cases "address p"; cases "token0Address p"; cases "token1Address p") auto
  from assms(2,3) have pk: "plain_key (Some a0)" "plain_key (Some a1)"
    by (simp_all add: p)
  show ?thesis
    using resolves_plain [OF assms(1) pk(1) ne(2)] resolves_plain [OF assms(1) pk(2) ne(3)]
    by (auto simp: pool_pairs_def joinable_def p ne split: option.splits)
next
  case False
  then have "pool_pairs (assetMap_of assets) p = []"
    by (auto simp: pool_pairs_def split: option.splits)
  moreover from False have "\<not> joinable assets p"
    by (cases "address p"; cases "token0Address p"; cases "token1Address p")
      (auto simp: joinable_def resolves_def)
  ultimately show ?thesis by simp
qed

lemma join_all_plain:
  assumes "\<forall>a \<in> set assets. contractAddress a \<noteq> Some ''__proto__''"
    and "\<forall>p \<in> set pools. plain_key (token0Address p) \<and> plain_key (token1Address p)"
  shows "length (calculateTradingPairs assets pools) = length (filter (joinable assets) pools)"
proof -
  have "length (concat (map (pool_pairs (assetMap_of assets)) pools))
          = length (filter (joinable assets) pools)"
    using assms(2) by (induction pools) (simp_all add: join_plain [OF assms(1)])
  then show ?thesis
    by (simp add: calculateTradingPairs_def Let_def length_sort_js)
qed

lemma assetMap_scenario_B:
  "assetMap_get (assetMap_of [asset_TON, asset_STON]) ''T0'' = Some asset_TON"
  "assetMap_get (assetMap_of [asset_TON, asset_STON]) ''T1'' = Some asset_STON"
  "assetMap_get (assetMap_of [asset_TON, asset_STON]) ''constructor'' = Some no_fields"
  "assetMap_get (assetMap_of [asset_TON, asset_STON]) ''toString'' = Some no_fields"
  by (simp_all add: assetMap_get_def assetMap_of_def assetMap_add_def empty_object_def
      inherited_def object_prototype_names_def asset_TON_def asset_STON_def)

lemma pool_pairs_inherited:
  "pool_pairs (assetMap_of [asset_TON, asset_STON]) pool_inherited
     = [make_pair pool_inherited ''P4'' no_fields no_fields]"
  by (simp add: pool_pairs_def assetMap_scenario_B pool_inherited_def)

lemma calculate_inherited:
  "calculateTradingPairs [asset_TON, asset_STON] [pool_inherited]
     = [make_pair pool_inherited ''P4'' no_fields no_fields]"
  by (simp add: calculateTradingPairs_def pool_pairs_inherited sort_js_def)

lemma name_no_fields: "name (make_pair p pa no_fields no_fields) = ''undefined/undefined''"
  by (simp add: make_pair_def no_fields_def Let_def)

text \<open>
  C5, at an input where the source departs from it. The pool \<open>P4\<close> names the token
  addresses \<open>constructor\<close> and \<open>toString\<close>. Neither is the contract address of an asset,
  so the pool cannot be joined, and the claim gives it no pair. The source reads both
  from the plain object that is its asset map, finds the methods that every object
  inherits, takes them for assets, and derives one pair for the pool, named
  \<open>undefined/undefined\<close>.
\<close>

theorem join_inherited_names:
  "\<not> resolves [asset_TON, asset_STON] (token0Address pool_inherited)
   \<and> \<not> resolves [asset_TON, asset_STON] (token1Address pool_inherited)
   \<and> \<not> joinable [asset_TON, asset_STON] pool_inherited
   \<and> length (calculateTradingPairs [asset_TON, asset_STON] [pool_inherited]) = 1
   \<and> map pair_id (calculateTradingPairs [asset_TON, asset_STON] [pool_inherited]) = [''P4'']
   \<and> map name (calculateTradingPairs [asset_TON, asset_STON] [pool_inherited])
       = [''undefined/undefined'']"
proof -
  have "\<not> resolves [asset_TON, asset_STON] (token0Address pool_inherited)"
    and "\<not> resolves [asset_TON, asset_STON] (token1Address pool_inherited)"
    by (simp_all add: resolves_def pool_inherited_def asset_TON_def asset_STON_def)
  then show ?thesis
    by (simp add: calculate_inherited name_no_fields pair_id_make_pair joinable_def)
qed

text \<open>
  C10. An asset whose \<open>contractAddress\<close> is absent or empty adds nothing to the asset
  map, whatever its other fields: the map, and so the derived collection, is that of
  the asset list without it. A pool that names such an address as a token contributes no
  pair, whatever the map holds.
\<close>

theorem missing_address_omitted:
  assumes "contractAddress a = None \<or> contractAddress a = Some []"
  shows "assetMap_of (xs @ a # ys) = assetMap_of (xs @ ys)
       \<and> calculateTradingPairs (xs @ a # ys) pools = calculateTradingPairs (xs @ ys) pools
       \<and> (token0Address p = contractAddress a \<or> token1Address p = contractAddress a
            \<longrightarrow> pool_pairs m p = [])"
  using assms
  by (auto simp: assetMap_of_skip calculateTradingPairs_def pool_pairs_falsy_token)

theorem missing_address_omitted_witness:
  "contractAddress (asset_TON\<lparr> contractAddress := Some [] \<rparr>) = Some []
   \<and> calculateTradingPairs [asset_TON\<lparr> contractAddress := Some [] \<rparr>, asset_STON]
        [pool_P1\<lparr> token0Address := Some [] \<rparr>] = []"
proof -
  have a: "contractAddress (asset_TON\<lparr> contractAddress := Some [] \<rparr>) = Some []"
    by simp
  have b: "token0Address (pool_P1\<lparr> token0Address := Some [] \<rparr>) = Some []"
    by simp
  show ?thesis
    using missing_address_omitted
      [of "asset_TON\<lparr> contractAddress := Some [] \<rparr>" "[]" "[asset_STON]"
          "[pool_P1\<lparr> token0Address := Some [] \<rparr>]"
          "pool_P1\<lparr> token0Address := Some [] \<rparr>" "assetMap_of [asset_STON]"]
    by (simp add: calculateTradingPairs_def sort_js_def)
qed

section \<open>Scenario B\<close>


lemma make_pair_P1:
  "make_pair pool_P1 ''P1'' asset_TON asset_STON =
     \<lparr> pair_id = ''P1'', name = ''TON/STON'',
       token0 = \<lparr> tok_symbol = Some ''TON'', tok_name = Some ''TON'',
                  tok_address = Some ''T0'', tok_decimals = Some 9, usdPrice = Fin 0 \<rparr>,
       token1 = \<lparr> tok_symbol = Some ''STON'', tok_name = Some ''STON'',
                  tok_address = Some ''T1'', tok_decimals = Some 9, usdPrice = Fin 0 \<rparr>,
       price = Fin 5, formattedPrice = ''5.00'', liquidity = Fin 1000, volume24h = Fin 0,
       apy = Fin 0, poolAddress = ''P1'',
       reserves = \<lparr> res_token0 = Fin 100, res_token1 = Fin 500 \<rparr>, popularity = Fin 0 \<rparr>"
  by (simp add: make_pair_def pool_P1_def asset_TON_def asset_STON_def Let_def opt_or_def
      parseFloat_0 parseFloat_100 parseFloat_500 parseFloat_1000 js_gt_def
      parse_decimals_eq math_pow10_0 round64_5 formatPrice_5)

lemma pool_pairs_P1:
  "pool_pairs (assetMap_of [asset_TON, asset_STON]) pool_P1
     = [make_pair pool_P1 ''P1'' asset_TON asset_STON]"
  by (simp add: pool_pairs_def assetMap_scenario_B pool_P1_def)

lemma calculate_scenario_B:
  "calculateTradingPairs [asset_TON, asset_STON] [pool_P1]
     = [make_pair pool_P1 ''P1'' asset_TON asset_STON]"
  by (simp add: calculateTradingPairs_def pool_pairs_P1 sort_js_def)

text \<open>
  C3, as the source has it. For the assets and the pool of scenario B the derivation
  yields exactly one pair; its price is \<open>500 / 100 * 10^(9 - 9) = 5\<close>, and its
  formatted price is \<open>5.00\<close>: a price below \<open>100\<close> is printed with two fractional
  digits.
\<close>

theorem scenario_B_price:
  "length (calculateTradingPairs [asset_TON, asset_STON] [pool_P1]) = 1
   \<and> map price (calculateTradingPairs [asset_TON, asset_STON] [pool_P1]) = [Fin 5]
   \<and> map formattedPrice (calculateTradingPairs [asset_TON, asset_STON] [pool_P1]) = [''5.00'']"
  by (simp add: calculate_scenario_B make_pair_P1)

lemma calculate_without_addresses:
  "calculateTradingPairs [asset_TON\<lparr> contractAddress := None \<rparr>,
       asset_STON\<lparr> contractAddress := None \<rparr>] [pool_P1] = []"
  by (simp add: calculateTradingPairs_def assetMap_of_def assetMap_add_def pool_pairs_def
      assetMap_get_def empty_object_def inherited_def object_prototype_names_def
      pool_P1_def asset_TON_def asset_STON_def sort_js_def)

text \<open>
  The claim as stated fails: the formatted price \<open>5\<close> is not what the derivation
  yields. (The claim writes the key of an asset as \<open>address\<close>; were that a field of
  its own, with no \<open>contractAddress\<close>, no pair would be derived at all.)
\<close>

theorem scenario_B_counterexample:
  "map formattedPrice (calculateTradingPairs [asset_TON, asset_STON] [pool_P1]) \<noteq> [''5'']
   \<and> calculateTradingPairs [asset_TON\<lparr> contractAddress := None \<rparr>,
         asset_STON\<lparr> contractAddress := None \<rparr>] [pool_P1] = []"
  by (simp add: calculate_scenario_B make_pair_P1 calculate_without_addresses)

section \<open>Properties of the price\<close>

lemma pow2_pos: "0 < pow2 e"
  by (simp add: pow2_def)


lemma round_half_even_nonneg: "0 \<le> q \<Longrightarrow> 0 \<le> round_half_even q"
  by (auto simp: round_half_even_def Let_def intro: add_nonneg_nonneg)

lemma js_ge_not_lt: "js_ge v (Fin 0) \<Longrightarrow> \<not> js_lt v (Fin 0)"
  by (cases v) simp_all

lemma round64_nonneg: "0 \<le> x \<Longrightarrow> js_ge (round64 x) (Fin 0)"
proof -
  assume x: "0 \<le> x"
  have "0 \<le> rat_of_int (round_half_even (\<bar>x\<bar> / pow2 (max (ilog2 \<bar>x\<bar>) (- 1022) - 52)))
            * pow2 (max (ilog2 \<bar>x\<bar>) (- 1022) - 52)"
    using pow2_pos [of "max (ilog2 \<bar>x\<bar>) (- 1022) - 52"]
    by (intro mult_nonneg_nonneg) (simp_all add: round_half_even_nonneg)
  then show ?thesis
    using x by (simp add: round64_def Let_def)
qed














section \<open>Properties of the response\<close>

lemma filter_err_length: "filter_err f xs = Inr ys \<Longrightarrow> length ys \<le> length xs"
proof (induction xs arbitrary: ys)
  case Nil
  then show ?case by simp
next
  case (Cons x xs)
  then show ?case
    by (fastforce split: sum.splits if_splits)
qed

lemma filterAndSortPairs_length:
  assumes "filterAndSortPairs lc pairs f = Inr out"
  shows "length out \<le> length pairs"
proof -
  from assms obtain searched where
    s: "(if search f \<noteq> [] then filter_err (search_match (toLowerCase (search f))) pairs
         else Inr pairs) = Inr searched"
    and out: "out = sort_js (sort_cmp lc f)
        (let floored = (if js_gt (minLiquidity f) (Fin 0)
                        then filter (\<lambda>pair. js_ge (liquidity pair) (minLiquidity f)) searched
                        else searched)
         in if category f \<noteq> ''all'' then filter (category_matches (category f)) floored
            else floored)"
    by (auto simp: filterAndSortPairs_def Let_def split: sum.splits)
  from s have "length searched \<le> length pairs"
    by (auto dest: filter_err_length split: if_splits)
  moreover have "length out \<le> length searched"
    unfolding out length_sort_js Let_def
    by (auto intro: order_trans [OF length_filter_le length_filter_le])
  ultimately show ?thesis by simp
qed

lemma filters_stablecoins:
  "filters_param (no_query\<lparr> q_category := Some ''stablecoins'' \<rparr>)
     = \<lparr> search = [], sortBy = ''liquidity'', sortOrder = ''desc'',
         minLiquidity = Fin 0, category = ''stablecoins'' \<rparr>"
  by (simp add: filters_param_def no_query_def parseFloat_undefined)

lemma P1_not_stablecoins:
  "\<not> category_matches ''stablecoins'' (make_pair pool_P1 ''P1'' asset_TON asset_STON)"
  by (simp add: make_pair_P1 category_matches_def pair_symbols_def pair_names_def
      join2_def toLowerCase_def toLowerChar_def Let_def)

lemma query_stablecoins:
  "filterAndSortPairs lc_equal (calculateTradingPairs [asset_TON, asset_STON] [pool_P1])
       (filters_param (no_query\<lparr> q_category := Some ''stablecoins'' \<rparr>)) = Inr []"
  by (simp add: calculate_scenario_B filters_stablecoins P1_not_stablecoins
      filterAndSortPairs_def js_gt_def sort_js_def)

lemma paginate_empty_default:
  "paginateResults_num ([] :: TradingPair list) (Fin 1) (Fin 50)
     = \<lparr> num_data = [],
         num_pagination = \<lparr> num_currentPage = Fin 1, num_totalPages = Fin 0,
                            num_totalItems = 0, num_itemsPerPage = Fin 50,
                            num_hasNextPage = False, num_hasPrevPage = False,
                            num_startIndex = Fin 1, num_endIndex = Fin 0 \<rparr> \<rparr>"
proof -
  have z: "round64 0 = Fin 0"
    by (simp add: round64_def)
  show ?thesis
    by (simp add: paginateResults_num_def slice_num_def clamp_index_def js_gt_def z
        round64_1 round64_50 Let_def)
qed

lemma handler_stablecoins:
  "handler lc_equal ''GET'' (no_query\<lparr> q_category := Some ''stablecoins'' \<rparr>)
       [asset_TON, asset_STON] [pool_P1]
     = Json200 \<lparr> resp_data = [],
                 resp_pagination = \<lparr> num_currentPage = Fin 1, num_totalPages = Fin 0,
                                     num_totalItems = 0, num_itemsPerPage = Fin 50,
                                     num_hasNextPage = False, num_hasPrevPage = False,
                                     num_startIndex = Fin 1, num_endIndex = Fin 0 \<rparr>,
                 resp_filters = \<lparr> search = [], sortBy = ''liquidity'', sortOrder = ''desc'',
                                  minLiquidity = Fin 0, category = ''stablecoins'' \<rparr>,
                 totalPairs = 1 \<rparr>"
proof -
  have p: "page_param (no_query\<lparr> q_category := Some ''stablecoins'' \<rparr>) = Fin 1"
    and l: "limit_param (no_query\<lparr> q_category := Some ''stablecoins'' \<rparr>) = Fin 50"
    by (simp_all add: page_param_def limit_param_def no_query_def parseInt_undefined)
  have q: "filterAndSortPairs lc_equal [make_pair pool_P1 ''P1'' asset_TON asset_STON]
             \<lparr> search = [], sortBy = ''liquidity'', sortOrder = ''desc'',
               minLiquidity = Fin 0, category = ''stablecoins'' \<rparr> = Inr []"
    using query_stablecoins by (simp add: calculate_scenario_B filters_stablecoins)
  show ?thesis
    by (simp add: handler_def Let_def q p l paginate_empty_default filters_stablecoins
        calculate_scenario_B)
qed

text \<open>
  C2, as the source has it. The \<open>totalPairs\<close> of a response is the number of derived
  pairs before any filter is applied: the length of the output of
  \<open>calculateTradingPairs\<close>. The number of pairs that remain after the filters is
  \<open>pagination.totalItems\<close>, and it is at most \<open>totalPairs\<close>.
\<close>

theorem totalPairs_before_filters:
  assumes "handler lc method q assets pools = Json200 r"
  shows "totalPairs r = int (length (calculateTradingPairs assets pools))
       \<and> (\<exists>filtered.
             filterAndSortPairs lc (calculateTradingPairs assets pools) (filters_param q)
               = Inr filtered
           \<and> num_totalItems (resp_pagination r) = int (length filtered)
           \<and> int (length filtered) \<le> totalPairs r)"
proof -
  from assms obtain filtered where
    f: "filterAndSortPairs lc (calculateTradingPairs assets pools) (filters_param q) = Inr filtered"
    and r: "r = \<lparr> resp_data
                  = num_data (paginateResults_num filtered (page_param q) (limit_param q)),
              resp_pagination
                = num_pagination (paginateResults_num filtered (page_param q) (limit_param q)),
              resp_filters = filters_param q,
              totalPairs = int (length (calculateTradingPairs assets pools)) \<rparr>"
    by (rule handler_Json200)
  have 1: "totalPairs r = int (length (calculateTradingPairs assets pools))"
    by (simp add: r)
  have 3: "num_totalItems (resp_pagination r) = int (length filtered)"
    by (simp add: r paginateResults_num_def Let_def)
  have 4: "int (length filtered) \<le> totalPairs r"
    using filterAndSortPairs_length [OF f] by (simp add: 1)
  from f 1 3 4 show ?thesis by auto
qed

theorem totalPairs_before_filters_witness:
  "totalPairs \<lparr> resp_data = [],
                resp_pagination = \<lparr> num_currentPage = Fin 1, num_totalPages = Fin 0,
                                    num_totalItems = 0, num_itemsPerPage = Fin 50,
                                    num_hasNextPage = False, num_hasPrevPage = False,
                                    num_startIndex = Fin 1, num_endIndex = Fin 0 \<rparr>,
                resp_filters = \<lparr> search = [], sortBy = ''liquidity'', sortOrder = ''desc'',
                                 minLiquidity = Fin 0, category = ''stablecoins'' \<rparr>,
                totalPairs = 1 \<rparr>
     = int (length (calculateTradingPairs [asset_TON, asset_STON] [pool_P1]))
   \<and> length (calculateTradingPairs [asset_TON, asset_STON] [pool_P1]) = 1"
  using totalPairs_before_filters [OF handler_stablecoins]
  by simp

text \<open>
  The claim as stated fails: with the category \<open>stablecoins\<close> the one pair of scenario
  B is filtered out, and \<open>totalPairs\<close> is still \<open>1\<close>.
\<close>

theorem totalPairs_counterexample:
  "handler lc_equal ''GET'' (no_query\<lparr> q_category := Some ''stablecoins'' \<rparr>)
       [asset_TON, asset_STON] [pool_P1]
     = Json200 \<lparr> resp_data = [],
                 resp_pagination = \<lparr> num_currentPage = Fin 1, num_totalPages = Fin 0,
                                     num_totalItems = 0, num_itemsPerPage = Fin 50,
                                     num_hasNextPage = False, num_hasPrevPage = False,
                                     num_startIndex = Fin 1, num_endIndex = Fin 0 \<rparr>,
                 resp_filters = \<lparr> search = [], sortBy = ''liquidity'', sortOrder = ''desc'',
                                  minLiquidity = Fin 0, category = ''stablecoins'' \<rparr>,
                 totalPairs = 1 \<rparr>
   \<and> filterAndSortPairs lc_equal (calculateTradingPairs [asset_TON, asset_STON] [pool_P1])
       (filters_param (no_query\<lparr> q_category := Some ''stablecoins'' \<rparr>)) = Inr []
   \<and> (1 :: int) \<noteq> int (length ([] :: TradingPair list))"
  by (simp add: handler_stablecoins query_stablecoins)

section \<open>Properties of the sort\<close>

lemma pow2_powi: "pow2 e = 2 powi e"
  by (simp add: pow2_def power_int_def power_one_over inverse_eq_divide)

lemma pow2_mono: "i \<le> j \<Longrightarrow> pow2 i \<le> pow2 j"
  by (simp add: pow2_powi power_int_increasing)

lemma pow2_add: "pow2 (i + j) = pow2 i * pow2 j"
  by (simp add: pow2_powi power_int_add)

lemma pow2_nonneg_int: "0 \<le> e \<Longrightarrow> pow2 e = of_int (2 ^ nat e)"
  by (simp add: pow2_def)

lemma bit_length_bounds: "0 < n \<Longrightarrow> 2 ^ (bit_length n - 1) \<le> n \<and> n < 2 ^ bit_length n"
proof (induction n rule: bit_length.induct)
  case (1 n)
  show ?case
  proof (cases "n div 2 = 0")
    case True
    with "1.prems" have "n = 1" by (simp add: div_eq_0_iff) 
    then show ?thesis
      by (simp add: bit_length_pos bit_length_0)
  next
    case False
    then have pos: "0 < n div 2" by simp
    with "1.IH" "1.prems" have ih: "2 ^ (bit_length (n div 2) - 1) \<le> n div 2"
      "n div 2 < 2 ^ bit_length (n div 2)" by simp_all
    have b1: "0 < bit_length (n div 2)"
      using pos by (simp add: bit_length_pos)
    then have e: "2 ^ bit_length (n div 2) = (2::nat) * 2 ^ (bit_length (n div 2) - 1)"
      by (cases "bit_length (n div 2)") simp_all
    have bl: "bit_length n = Suc (bit_length (n div 2))"
      using "1.prems" by (rule bit_length_pos)
    from ih e show ?thesis
      unfolding bl by simp linarith
  qed
qed

lemma ilog2_lower: assumes "0 < x" shows "pow2 (ilog2 x) \<le> x"
proof (cases "1 \<le> x")
  case True
  then have fl: "0 < nat \<lfloor>x\<rfloor>" by simp
  from bit_length_bounds [OF fl] have "2 ^ (bit_length (nat \<lfloor>x\<rfloor>) - 1) \<le> nat \<lfloor>x\<rfloor>" by simp
  then have "(of_nat (2 ^ (bit_length (nat \<lfloor>x\<rfloor>) - 1)) :: rat) \<le> of_nat (nat \<lfloor>x\<rfloor>)"
    by (simp only: of_nat_le_iff)
  also have "\<dots> = of_int \<lfloor>x\<rfloor>" using True by simp
  also have "\<dots> \<le> x" by simp
  finally have le: "(2::rat) ^ (bit_length (nat \<lfloor>x\<rfloor>) - 1) \<le> x" by simp
  have b1: "0 < bit_length (nat \<lfloor>x\<rfloor>)" using fl by (simp add: bit_length_pos)
  then have "nat (int (bit_length (nat \<lfloor>x\<rfloor>)) - 1) = bit_length (nat \<lfloor>x\<rfloor>) - 1" by simp
  with le b1 True show ?thesis
    by (simp add: ilog2_def pow2_def)
next
  case False
  with assms have x1: "x < 1" by simp
  let ?y = "nat \<lfloor>1 / x\<rfloor>"
  let ?k = "int (bit_length ?y) - 1"
  have "1 \<le> 1 / x" using assms x1 by simp
  then have f1: "1 \<le> \<lfloor>1 / x\<rfloor>" by simp
  then have fl: "0 < ?y" by simp
  have yi: "int ?y = \<lfloor>1 / x\<rfloor>" using f1 assms by simp
  have b1: "0 < bit_length ?y" using fl by (simp add: bit_length_pos)
  show ?thesis
  proof (cases "x = pow2 (- ?k)")
    case True
    then show ?thesis using False by (simp add: ilog2_def Let_def)
  next
    case neq: False
    from bit_length_bounds [OF fl] have "?y < 2 ^ bit_length ?y" by simp
    then have "int ?y < 2 ^ bit_length ?y"
      by (metis of_nat_less_iff of_nat_numeral of_nat_power)
    then have "\<lfloor>1 / x\<rfloor> < 2 ^ bit_length ?y" unfolding yi .
    then have "1 / x < of_int (2 ^ bit_length ?y)"
      by (simp only: floor_less_iff)
    then have "1 / x < 2 ^ bit_length ?y" by simp
    then have "1 < x * 2 ^ bit_length ?y"
      using assms by (simp add: field_simps)
    then have "1 / 2 ^ bit_length ?y \<le> x"
      by (simp add: field_simps)
    moreover have "ilog2 x = - ?k - 1"
      using False neq by (simp add: ilog2_def Let_def)
    moreover have "pow2 (- ?k - 1) = 1 / 2 ^ bit_length ?y"
      using b1 by (simp add: pow2_def)
    ultimately show ?thesis by simp
  qed
qed


lemma round_half_even_ge1: "1 \<le> q \<Longrightarrow> 1 \<le> round_half_even q"
proof -
  assume "1 \<le> q"
  then have "1 \<le> \<lfloor>q\<rfloor>" by simp
  then show ?thesis
    by (auto simp: round_half_even_def Let_def)
qed

lemma round64_ulp_le:
  assumes "pow2 (- 1074) \<le> a"
  shows "pow2 (max (ilog2 a) (- 1022) - 52) \<le> a"
proof (cases "ilog2 a \<le> - 1022")
  case True
  then have "max (ilog2 a) (- 1022) - 52 = - 1074" by simp
  with assms show ?thesis by simp
next
  case False
  then have "max (ilog2 a) (- 1022) - 52 = ilog2 a - 52" by simp
  moreover have "pow2 (ilog2 a - 52) \<le> pow2 (ilog2 a)"
    by (rule pow2_mono) simp
  moreover have "0 < a"
    using assms pow2_pos [of "- 1074"] by simp
  then have "pow2 (ilog2 a) \<le> a" by (rule ilog2_lower)
  ultimately show ?thesis by simp
qed

lemma round64_magnitude_pos:
  assumes "pow2 (- 1074) \<le> \<bar>d\<bar>"
  shows "0 < rat_of_int (round_half_even (\<bar>d\<bar> / pow2 (max (ilog2 \<bar>d\<bar>) (- 1022) - 52)))
             * pow2 (max (ilog2 \<bar>d\<bar>) (- 1022) - 52)"
proof -
  let ?u = "pow2 (max (ilog2 \<bar>d\<bar>) (- 1022) - 52)"
  have u: "0 < ?u" by (rule pow2_pos)
  have "?u \<le> \<bar>d\<bar>" using assms by (rule round64_ulp_le)
  then have "1 \<le> \<bar>d\<bar> / ?u" using u by (simp add: pos_le_divide_eq)
  then have "1 \<le> round_half_even (\<bar>d\<bar> / ?u)" by (rule round_half_even_ge1)
  then have "0 < rat_of_int (round_half_even (\<bar>d\<bar> / ?u))" by simp
  from this u show ?thesis by (rule mult_pos_pos)
qed

lemma round64_pos:
  assumes "pow2 (- 1074) \<le> d"
  shows "js_gt (round64 d) (Fin 0)"
proof -
  have d: "0 < d" using assms pow2_pos [of "- 1074"] by simp
  then have "pow2 (- 1074) \<le> \<bar>d\<bar>" using assms by simp
  from round64_magnitude_pos [OF this] d show ?thesis
    by (simp add: round64_def Let_def js_gt_def)
qed

lemma round64_neg:
  assumes "d \<le> - pow2 (- 1074)"
  shows "js_lt (round64 d) (Fin 0)"
proof -
  have d: "d < 0" using assms pow2_pos [of "- 1074"] by simp
  then have "pow2 (- 1074) \<le> \<bar>d\<bar>" using assms by simp
  from round64_magnitude_pos [OF this] d show ?thesis
    by (simp add: round64_def Let_def)
qed

lemma round64_nonpos: "x \<le> 0 \<Longrightarrow> \<not> js_gt (round64 x) (Fin 0)"
proof -
  assume x: "x \<le> 0"
  have "0 \<le> rat_of_int (round_half_even (\<bar>x\<bar> / pow2 (max (ilog2 \<bar>x\<bar>) (- 1022) - 52)))
            * pow2 (max (ilog2 \<bar>x\<bar>) (- 1022) - 52)"
    using pow2_pos [of "max (ilog2 \<bar>x\<bar>) (- 1022) - 52"]
    by (intro mult_nonneg_nonneg) (simp_all add: round_half_even_nonneg)
  then show ?thesis
    using x by (simp add: round64_def Let_def js_gt_def)
qed

lemma round64_nonneg': "0 \<le> x \<Longrightarrow> \<not> js_lt (round64 x) (Fin 0)"
  by (rule js_ge_not_lt) (rule round64_nonneg)

text \<open>Every Number is a multiple of the least subnormal.\<close>

lemma double_grid:
  assumes "round64 x = Fin x"
  shows "\<exists>n :: int. x = of_int n * pow2 (- 1074)"
proof (cases "x = 0")
  case True
  then show ?thesis by (intro exI [of _ 0]) simp
next
  case False
  let ?e = "max (ilog2 \<bar>x\<bar>) (- 1022)"
  let ?m = "round_half_even (\<bar>x\<bar> / pow2 (?e - 52))"
  have e: "0 \<le> ?e + 1022" by simp
  have "pow2 (?e - 52) = pow2 ((?e + 1022) + (- 1074))" by simp
  also have "\<dots> = pow2 (?e + 1022) * pow2 (- 1074)" by (rule pow2_add)
  also have "\<dots> = of_int (2 ^ nat (?e + 1022)) * pow2 (- 1074)"
    using e by (simp only: pow2_nonneg_int)
  finally have u: "pow2 (?e - 52) = of_int (2 ^ nat (?e + 1022)) * pow2 (- 1074)" .
  from assms False have "x = of_int ?m * pow2 (?e - 52) \<or> x = - (of_int ?m * pow2 (?e - 52))"
    by (auto simp: round64_def Let_def split: if_splits)
  then show ?thesis
  proof
    assume "x = of_int ?m * pow2 (?e - 52)"
    then have "x = of_int (?m * 2 ^ nat (?e + 1022)) * pow2 (- 1074)"
      by (simp add: u)
    then show ?thesis by blast
  next
    assume "x = - (of_int ?m * pow2 (?e - 52))"
    then have "x = of_int (- (?m * 2 ^ nat (?e + 1022))) * pow2 (- 1074)"
      by (simp add: u)
    then show ?thesis by blast
  qed
qed

lemma double_diff:
  assumes "round64 a = Fin a" and "round64 b = Fin b" and "a < b"
  shows "pow2 (- 1074) \<le> b - a"
proof -
  from double_grid [OF assms(1)] obtain n where a: "a = of_int n * pow2 (- 1074)" ..
  from double_grid [OF assms(2)] obtain m where b: "b = of_int m * pow2 (- 1074)" ..
  have p: "0 < pow2 (- 1074)" by (rule pow2_pos)
  from assms(3) have "of_int n * pow2 (- 1074) < of_int m * pow2 (- 1074)"
    by (simp only: a b)
  then have "(of_int n :: rat) < of_int m" using p by (simp only: mult_less_cancel_right_pos)
  then have "n + 1 \<le> m" by simp
  then have "(of_int (n + 1) :: rat) \<le> of_int m" by (simp only: of_int_le_iff)
  then have "of_int (n + 1) * pow2 (- 1074) \<le> of_int m * pow2 (- 1074)"
    using p by (simp only: mult_le_cancel_right_pos)
  then show ?thesis
    by (simp add: a b algebra_simps)
qed

lemma js_sub_gt_iff:
  assumes "is_double u" "is_double v" "u \<noteq> NaN" "v \<noteq> NaN"
  shows "js_gt (js_sub v u) (Fin 0) = (ord_key u < ord_key v)"
proof (cases u; cases v)
  fix a b assume uv: "u = Fin a" "v = Fin b"
  with assms have d: "round64 a = Fin a" "round64 b = Fin b" by simp_all
  show ?thesis
  proof (cases "a < b")
    case True
    from round64_pos [OF double_diff [OF d True]] True show ?thesis
      by (simp add: uv ord_key_def)
  next
    case False
    then have "b - a \<le> 0" by simp
    from round64_nonpos [OF this] False show ?thesis
      by (simp add: uv ord_key_def)
  qed
qed (use assms in \<open>simp_all add: ord_key_def js_gt_def\<close>)

lemma js_sub_lt_iff:
  assumes "is_double u" "is_double v" "u \<noteq> NaN" "v \<noteq> NaN"
  shows "js_gt (js_neg (js_sub v u)) (Fin 0) = (ord_key v < ord_key u)"
proof (cases u; cases v)
  fix a b assume uv: "u = Fin a" "v = Fin b"
  with assms have d: "round64 a = Fin a" "round64 b = Fin b" by simp_all
  have neg: "js_gt (js_neg w) (Fin 0) = js_lt w (Fin 0)" for w
    by (cases w) (simp_all add: js_gt_def)
  show ?thesis
  proof (cases "b < a")
    case True
    from double_diff [OF d(2) d(1) True] have "b - a \<le> - pow2 (- 1074)" by simp
    from round64_neg [OF this] True show ?thesis
      by (simp add: uv ord_key_def neg)
  next
    case False
    then have "0 \<le> b - a" by simp
    from round64_nonneg' [OF this] False show ?thesis
      by (simp add: uv ord_key_def neg)
  qed
qed (use assms in \<open>simp_all add: ord_key_def js_gt_def\<close>)

lemma ord_key_inj: "ord_key u = ord_key v \<Longrightarrow> u = v"
  by (cases u; cases v) (simp_all add: ord_key_def)

lemma ord_key_le_ge: "u \<noteq> NaN \<Longrightarrow> v \<noteq> NaN \<Longrightarrow> ord_key v \<le> ord_key u \<Longrightarrow> js_ge u v"
  by (cases u; cases v) (simp_all add: ord_key_def)


lemma sorted_wrt_insert_js:
  assumes "sorted_wrt le ys"
    and "\<And>y. y \<in> set ys \<Longrightarrow> js_gt (c x y) (Fin 0) \<Longrightarrow> le y x"
    and "\<And>y. y \<in> set ys \<Longrightarrow> \<not> js_gt (c x y) (Fin 0) \<Longrightarrow> le x y"
    and "\<And>a b z. le a b \<Longrightarrow> le b z \<Longrightarrow> le a z"
  shows "sorted_wrt le (insert_js c x ys)"
  using assms(1-3)
proof (induction ys)
  case Nil
  then show ?case by simp
next
  case (Cons y ys)
  show ?case
  proof (cases "js_gt (c x y) (Fin 0)")
    case True
    have "sorted_wrt le (insert_js c x ys)"
      using Cons by simp
    moreover have "\<forall>z \<in> set (insert_js c x ys). le y z"
    proof
      fix z assume "z \<in> set (insert_js c x ys)"
      then have "z \<in># mset (insert_js c x ys)" by simp
      then have "z = x \<or> z \<in> set ys" by (simp add: mset_insert_js)
      then show "le y z"
        using True Cons.prems by auto
    qed
    ultimately show ?thesis using True by simp
  next
    case False
    then have xy: "le x y" using Cons.prems by simp
    have "\<forall>z \<in> set ys. le x z"
      using xy Cons.prems(1) assms(4) by auto
    with xy Cons.prems(1) False show ?thesis by simp
  qed
qed

lemma sorted_wrt_sort_js:
  assumes "\<And>x y. x \<in> set xs \<Longrightarrow> y \<in> set xs \<Longrightarrow> js_gt (c x y) (Fin 0) \<Longrightarrow> le y x"
    and "\<And>x y. x \<in> set xs \<Longrightarrow> y \<in> set xs \<Longrightarrow> \<not> js_gt (c x y) (Fin 0) \<Longrightarrow> le x y"
    and "\<And>a b z. le a b \<Longrightarrow> le b z \<Longrightarrow> le a z"
  shows "sorted_wrt le (sort_js c xs)"
  using assms(1,2)
proof (induction xs)
  case Nil
  then show ?case by (simp add: sort_js_def)
next
  case (Cons x xs)
  have ih: "sorted_wrt le (sort_js c xs)"
    using Cons by simp
  have s: "sort_js c (x # xs) = insert_js c x (sort_js c xs)"
    by (simp add: sort_js_def)
  show ?case
    unfolding s
    by (rule sorted_wrt_insert_js [OF ih _ _ assms(3)])
       (use Cons.prems in \<open>simp_all add: set_sort_js\<close>)
qed

lemma filter_insert_js:
  assumes "\<And>y. y \<in> set ys \<Longrightarrow> P x \<Longrightarrow> P y \<Longrightarrow> \<not> js_gt (c x y) (Fin 0)"
  shows "filter P (insert_js c x ys) = (if P x then x # filter P ys else filter P ys)"
  using assms by (induction ys) auto

lemma filter_sort_js:
  assumes "\<And>x y. x \<in> set xs \<Longrightarrow> y \<in> set xs \<Longrightarrow> P x \<Longrightarrow> P y \<Longrightarrow> \<not> js_gt (c x y) (Fin 0)"
  shows "filter P (sort_js c xs) = filter P xs"
  using assms
proof (induction xs)
  case Nil
  then show ?case by (simp add: sort_js_def)
next
  case (Cons x xs)
  have s: "sort_js c (x # xs) = insert_js c x (sort_js c xs)"
    by (simp add: sort_js_def)
  have "filter P (insert_js c x (sort_js c xs))
          = (if P x then x # filter P (sort_js c xs) else filter P (sort_js c xs))"
    by (rule filter_insert_js) (use Cons.prems in \<open>simp add: set_sort_js\<close>)
  moreover have "filter P (sort_js c xs) = filter P xs"
    using Cons by simp
  ultimately show ?case by (simp add: s)
qed

lemma sort_js_reverse:
  fixes k :: "'a \<Rightarrow> 'k::linorder"
  assumes up: "\<And>x y. x \<in> set xs \<Longrightarrow> y \<in> set xs \<Longrightarrow> js_gt (c1 x y) (Fin 0) = (k y < k x)"
    and down: "\<And>x y. x \<in> set xs \<Longrightarrow> y \<in> set xs \<Longrightarrow> js_gt (c2 x y) (Fin 0) = (k x < k y)"
    and dist: "distinct (map k xs)"
  shows "sort_js c2 xs = rev (sort_js c1 xs)"
proof -
  let ?A = "sort_js c1 xs" and ?D = "sort_js c2 xs"
  have A: "sorted_wrt (\<lambda>a b. k a \<le> k b) ?A"
    by (rule sorted_wrt_sort_js) (use up in auto)
  have D: "sorted_wrt (\<lambda>a b. k b \<le> k a) ?D"
    by (rule sorted_wrt_sort_js) (use down in auto)
  have sA: "sorted (map k ?A)"
    using A by (simp add: sorted_map)
  have sD: "sorted (map k (rev ?D))"
    using D by (simp add: sorted_map sorted_wrt_rev del: rev_map)
  have mA: "mset (map k ?A) = mset (map k xs)" and mD: "mset (map k (rev ?D)) = mset (map k xs)"
    by (simp_all add: mset_sort_js)
  have dA: "distinct (map k ?A)" and dD: "distinct (map k (rev ?D))"
    using dist mA mD by (metis mset_eq_imp_distinct_iff)+
  have "set (map k ?A) = set (map k (rev ?D))"
    using mA mD by (metis set_mset_mset)
  with sA dA sD dD have eq: "map k ?A = map k (rev ?D)"
    by (intro sorted_distinct_set_unique)
  have "inj_on k (set xs)"
    using dist by (simp add: distinct_map)
  then have "inj_on k (set ?A \<union> set (rev ?D))"
    by (simp add: set_sort_js)
  with eq have "?A = rev ?D"
    by (simp only: inj_on_map_eq_map)
  then show ?thesis by simp
qed

lemma filter_err_Inr: "filter_err p xs = Inr ys \<Longrightarrow> ys = filter (\<lambda>x. p x = Inr True) xs"
proof (induction xs arbitrary: ys)
  case Nil
  then show ?case by simp
next
  case (Cons x xs)
  then show ?case
    by (auto split: sum.splits if_splits)
qed

lemma filtered_pairs_filter:
  assumes "filtered_pairs pairs f = Inr kept"
  shows "\<exists>Q. kept = filter Q pairs"
proof -
  let ?floor = "\<lambda>xs. if js_gt (minLiquidity f) (Fin 0)
                      then filter (\<lambda>pair. js_ge (liquidity pair) (minLiquidity f)) xs else xs"
  let ?cat = "\<lambda>xs. if category f \<noteq> ''all''
                    then filter (category_matches (category f)) xs else xs"
  from assms obtain searched where
    s: "(if search f \<noteq> [] then filter_err (search_match (toLowerCase (search f))) pairs
         else Inr pairs) = Inr searched"
    and k: "kept = ?cat (?floor searched)"
    by (auto simp: filtered_pairs_def Let_def split: sum.splits)
  from s obtain Q1 where q1: "searched = filter Q1 pairs"
    by (cases "search f = []") (auto dest: filter_err_Inr intro: that [of "\<lambda>_. True"])
  obtain Q2 where q2: "?floor searched = filter Q2 searched"
    by (cases "js_gt (minLiquidity f) (Fin 0)") (auto intro: that [of "\<lambda>_. True"])
  obtain Q3 where q3: "?cat (?floor searched) = filter Q3 (?floor searched)"
    by (cases "category f = ''all''") (auto intro: that [of "\<lambda>_. True"])
  have "kept = filter Q3 (filter Q2 (filter Q1 pairs))"
    using k q3 q2 q1 by simp
  then show ?thesis
    by (auto simp: filter_filter)
qed

lemma filterAndSortPairs_eq:
  "filterAndSortPairs lc pairs f =
     (case filtered_pairs pairs f of
        Inl e \<Rightarrow> Inl e
      | Inr kept \<Rightarrow> Inr (sort_js (sort_cmp lc f) kept))"
  by (simp add: filterAndSortPairs_def filtered_pairs_def Let_def split: sum.splits)

lemma filtered_pairs_sortOrder:
  "filtered_pairs pairs (f\<lparr> sortOrder := s \<rparr>) = filtered_pairs pairs f"
  by (auto simp: filtered_pairs_def Let_def split: sum.splits)


lemma sort_cmp_numeric:
  assumes "sortBy f \<noteq> ''name''"
  shows "sort_cmp lc (f\<lparr> sortOrder := ''desc'' \<rparr>) a b = js_sub (sort_field f b) (sort_field f a)"
    and "sort_cmp lc (f\<lparr> sortOrder := ''asc'' \<rparr>) a b
           = js_neg (js_sub (sort_field f b) (sort_field f a))"
  using assms by (simp_all add: sort_cmp_def sort_field_def Let_def)

lemma sort_cmp_name:
  assumes "sortBy f = ''name''"
  shows "sort_cmp lc (f\<lparr> sortOrder := ''desc'' \<rparr>) a b = Fin (of_int (lc (name a) (name b)))"
    and "sort_cmp lc (f\<lparr> sortOrder := ''asc'' \<rparr>) a b = Fin (- of_int (lc (name a) (name b)))"
  using assms by (simp_all add: sort_cmp_def Let_def)

lemma js_sub_self: "\<not> js_gt (js_sub v v) (Fin 0)" "\<not> js_gt (js_neg (js_sub v v)) (Fin 0)"
  by (cases v; simp add: js_gt_def round64_def)+

lemma distinct_map_nth:
  assumes "\<And>i j. i < length xs \<Longrightarrow> j < length xs \<Longrightarrow> i \<noteq> j \<Longrightarrow> k (xs ! i) \<noteq> k (xs ! j)"
  shows "distinct (map k xs)"
  using assms by (simp add: distinct_conv_nth)

text \<open>
  C6, as the source has it. Let the collation be a consistent comparator (it orders the
  strings by a key \<open>kn\<close>), and for a numeric \<open>sortBy\<close> let no sort key be \<open>NaN\<close>. If the
  query with \<open>sortOrder = desc\<close> returns \<open>ds\<close>, the query with \<open>sortOrder = asc\<close> and the
  same other filters returns a permutation \<open>as\<close> of \<open>ds\<close>, and \<open>as\<close> is the exact reverse
  of \<open>ds\<close> when no two pairs of the result have equal sort keys. The sort is stable:
  the pairs with equal sort keys stand in the same order in \<open>as\<close> and in \<open>ds\<close>, which is
  their order in the input. Under \<open>sortBy = liquidity\<close> (also the default for an
  unknown key) the liquidity of \<open>ds\<close> is non-increasing across the full result.
\<close>

theorem sort_order_reverse:
  fixes kn :: "string \<Rightarrow> 'k::linorder"
  assumes lc_pos: "\<And>a b. (0 < lc a b) = (kn b < kn a)"
    and lc_neg: "\<And>a b. (lc a b < 0) = (kn a < kn b)"
    and keys: "sortBy f \<noteq> ''name'' \<longrightarrow>
                 (\<forall>p \<in> set pairs. is_double (sort_field f p) \<and> sort_field f p \<noteq> NaN)"
    and desc: "filterAndSortPairs lc pairs (f\<lparr> sortOrder := ''desc'' \<rparr>) = Inr ds"
  shows "\<exists>as. filterAndSortPairs lc pairs (f\<lparr> sortOrder := ''asc'' \<rparr>) = Inr as
       \<and> mset as = mset ds
       \<and> ((\<forall>i < length ds. \<forall>j < length ds. i \<noteq> j \<longrightarrow> \<not> same_key lc f (ds ! i) (ds ! j))
            \<longrightarrow> as = rev ds)
       \<and> (\<forall>x. filter (same_key lc f x) as = filter (same_key lc f x) ds)
       \<and> (\<forall>x. subseq (filter (same_key lc f x) ds) pairs)
       \<and> (sortBy f \<notin> {''volume'', ''apy'', ''name'', ''price''}
            \<longrightarrow> sorted_wrt (\<lambda>a b. js_ge (liquidity a) (liquidity b)) ds)"
proof -
  let ?cd = "sort_cmp lc (f\<lparr> sortOrder := ''desc'' \<rparr>)"
  let ?ca = "sort_cmp lc (f\<lparr> sortOrder := ''asc'' \<rparr>)"
  from desc obtain kept where
    fd: "filtered_pairs pairs (f\<lparr> sortOrder := ''desc'' \<rparr>) = Inr kept"
    and ds: "ds = sort_js ?cd kept"
    by (auto simp: filterAndSortPairs_eq split: sum.splits)
  from fd have fk: "filtered_pairs pairs f = Inr kept"
    by (simp add: filtered_pairs_sortOrder)
  define as where "as = sort_js ?ca kept"
  have asc: "filterAndSortPairs lc pairs (f\<lparr> sortOrder := ''asc'' \<rparr>) = Inr as"
    by (simp add: filterAndSortPairs_eq filtered_pairs_sortOrder fk as_def)
  from filtered_pairs_filter [OF fk] obtain Q where kept: "kept = filter Q pairs" ..
  then have sub: "set kept \<subseteq> set pairs" by auto
  have ms: "mset as = mset ds"
    by (simp add: as_def ds mset_sort_js)
  have lc_zero: "(lc a b = 0) = (kn a = kn b)" for a b
    using lc_pos [of a b] lc_neg [of a b] by (cases "lc a b" "0::int" rule: linorder_cases) auto
  have num: "is_double (sort_field f p)" "sort_field f p \<noteq> NaN"
    if "sortBy f \<noteq> ''name''" "p \<in> set kept" for p
    using that keys sub by auto
  \<comment> \<open>the comparators agree with a key\<close>
  have name_up: "js_gt (?cd x y) (Fin 0) = (kn (name y) < kn (name x))"
    and name_down: "js_gt (?ca x y) (Fin 0) = (kn (name x) < kn (name y))"
    if "sortBy f = ''name''" for x y
    using that lc_pos [of "name x" "name y"] lc_neg [of "name x" "name y"]
    by (simp_all add: sort_cmp_name js_gt_def)
  have num_down: "js_gt (?cd x y) (Fin 0) = (ord_key (sort_field f x) < ord_key (sort_field f y))"
    and num_up: "js_gt (?ca x y) (Fin 0) = (ord_key (sort_field f y) < ord_key (sort_field f x))"
    if "sortBy f \<noteq> ''name''" "x \<in> set kept" "y \<in> set kept" for x y
    using that num [of x] num [of y]
    by (simp_all add: sort_cmp_numeric js_sub_gt_iff js_sub_lt_iff)
  \<comment> \<open>the reverse, when no two pairs tie\<close>
  have rev: "as = rev ds"
    if nt: "\<forall>i < length ds. \<forall>j < length ds. i \<noteq> j \<longrightarrow> \<not> same_key lc f (ds ! i) (ds ! j)"
  proof (cases "sortBy f = ''name''")
    case True
    have "distinct (map (kn \<circ> name) ds)"
      by (rule distinct_map_nth) (use nt True in \<open>auto simp: same_key_def lc_zero\<close>)
    moreover have "mset (map (kn \<circ> name) ds) = mset (map (kn \<circ> name) kept)"
      by (simp add: ds mset_sort_js)
    ultimately have "distinct (map (kn \<circ> name) kept)"
      by (metis mset_eq_imp_distinct_iff)
    then have "sort_js ?ca kept = rev (sort_js ?cd kept)"
      by (intro sort_js_reverse [where k = "kn \<circ> name"]) (simp_all add: name_up name_down True)
    then show ?thesis by (simp add: as_def ds)
  next
    case False
    let ?k = "ord_key \<circ> sort_field f"
    have "distinct (map ?k ds)"
      by (rule distinct_map_nth) (use nt False in \<open>auto simp: same_key_def dest: ord_key_inj\<close>)
    moreover have "mset (map ?k ds) = mset (map ?k kept)"
      by (simp add: ds mset_sort_js)
    ultimately have "distinct (map ?k kept)"
      by (metis mset_eq_imp_distinct_iff)
    then have "sort_js ?cd kept = rev (sort_js ?ca kept)"
      by (intro sort_js_reverse [where k = ?k]) (simp_all add: num_up num_down False)
    then show ?thesis by (simp add: as_def ds)
  qed
  \<comment> \<open>stability\<close>
  have tie: "\<not> js_gt (?cd a b) (Fin 0)" "\<not> js_gt (?ca a b) (Fin 0)"
    if "same_key lc f x a" "same_key lc f x b" for x a b
  proof -
    show "\<not> js_gt (?cd a b) (Fin 0)"
    proof (cases "sortBy f = ''name''")
      case True
      with that have "kn (name a) = kn (name b)" by (simp add: same_key_def lc_zero)
      then show ?thesis by (simp add: name_up True)
    next
      case False
      with that have "sort_field f a = sort_field f b" by (simp add: same_key_def)
      then show ?thesis by (simp add: sort_cmp_numeric False js_sub_self)
    qed
    show "\<not> js_gt (?ca a b) (Fin 0)"
    proof (cases "sortBy f = ''name''")
      case True
      with that have "kn (name a) = kn (name b)" by (simp add: same_key_def lc_zero)
      then show ?thesis by (simp add: name_down True)
    next
      case False
      with that have "sort_field f a = sort_field f b" by (simp add: same_key_def)
      then show ?thesis by (simp add: sort_cmp_numeric False js_sub_self)
    qed
  qed
  have st_d: "filter (same_key lc f x) ds = filter (same_key lc f x) kept" for x
    unfolding ds by (rule filter_sort_js) (rule tie)
  have st_a: "filter (same_key lc f x) as = filter (same_key lc f x) kept" for x
    unfolding as_def by (rule filter_sort_js) (rule tie)
  have sq: "subseq (filter (same_key lc f x) ds) pairs" for x
    unfolding st_d kept filter_filter by (rule subseq_filter_left)
  \<comment> \<open>the default order\<close>
  have dflt: "sorted_wrt (\<lambda>a b. js_ge (liquidity a) (liquidity b)) ds"
    if d: "sortBy f \<notin> {''volume'', ''apy'', ''name'', ''price''}"
  proof -
    from d have nn: "sortBy f \<noteq> ''name''" and sf: "sort_field f = liquidity"
      by (auto simp: sort_field_def fun_eq_iff)
    have "sorted_wrt (\<lambda>a b. ord_key (liquidity b) \<le> ord_key (liquidity a)) (sort_js ?cd kept)"
      by (rule sorted_wrt_sort_js) (use num_down [OF nn] in \<open>auto simp: sf\<close>)
    then show ?thesis
      unfolding ds
    proof (rule sorted_wrt_mono_rel [rotated])
      fix a b
      assume "a \<in> set (sort_js ?cd kept)" "b \<in> set (sort_js ?cd kept)"
        and le: "ord_key (liquidity b) \<le> ord_key (liquidity a)"
      then have "a \<in> set kept" "b \<in> set kept" by (simp_all add: set_sort_js)
      with num [OF nn] have "liquidity a \<noteq> NaN" "liquidity b \<noteq> NaN" by (auto simp: sf)
      with le show "js_ge (liquidity a) (liquidity b)" by (rule ord_key_le_ge [rotated 2])
    qed
  qed
  from asc ms rev st_a st_d sq dflt show ?thesis by auto
qed


lemma round64_2000: "round64 2000 = Fin 2000"
  apply (simp add: round64_def Let_def)
  apply (simp add: ilog2_def bit_length_0 bit_length_pos)
  apply (simp add: pow2_def)
  apply (simp add: round_half_even_def Let_def)
  done

lemma filtered_default:
  "filtered_pairs pairs (default_filters\<lparr> sortOrder := s \<rparr>) = Inr pairs"
  by (simp add: filtered_pairs_def default_filters_def js_gt_def)

lemma sort_js_two:
  "sort_js c [a, b] = (if js_gt (c a b) (Fin 0) then [b, a] else [a, b])"
  by (simp add: sort_js_def)

lemma sort_cmp_default:
  "sort_cmp lc (default_filters\<lparr> sortOrder := ''desc'' \<rparr>) a b
     = js_sub (liquidity b) (liquidity a)"
  "sort_cmp lc (default_filters\<lparr> sortOrder := ''asc'' \<rparr>) a b
     = js_neg (js_sub (liquidity b) (liquidity a))"
  by (simp_all add: sort_cmp_def default_filters_def Let_def)

lemma liquidity_examples:
  "liquidity usd_fund_pair = Fin 1000" "liquidity usdt_ton_pair = Fin 2000"
  "liquidity tie_pair = Fin 1000"
  by (simp_all add: usd_fund_pair_def usdt_ton_pair_def tie_pair_def)

lemma query_desc_distinct:
  "filterAndSortPairs lc_equal [usd_fund_pair, usdt_ton_pair]
       (default_filters\<lparr> sortOrder := ''desc'' \<rparr>) = Inr [usdt_ton_pair, usd_fund_pair]"
  by (simp add: filterAndSortPairs_eq filtered_default sort_js_two sort_cmp_default
      liquidity_examples round64_1000 js_gt_def)

lemma query_desc_tie:
  "filterAndSortPairs lc_equal [usd_fund_pair, tie_pair]
       (default_filters\<lparr> sortOrder := ''desc'' \<rparr>) = Inr [usd_fund_pair, tie_pair]"
  by (simp add: filterAndSortPairs_eq filtered_default sort_js_two sort_cmp_default
      liquidity_examples round64_def js_gt_def)

lemma query_asc_tie:
  "filterAndSortPairs lc_equal [usd_fund_pair, tie_pair]
       (default_filters\<lparr> sortOrder := ''asc'' \<rparr>) = Inr [usd_fund_pair, tie_pair]"
  by (simp add: filterAndSortPairs_eq filtered_default sort_js_two sort_cmp_default
      liquidity_examples round64_def js_gt_def)

text \<open>
  The claim as stated fails: two pairs of equal liquidity keep their input order in both
  directions, so the ascending result is not the reverse of the descending one.
\<close>

theorem sort_order_counterexample:
  "filterAndSortPairs lc_equal [usd_fund_pair, tie_pair]
       (default_filters\<lparr> sortOrder := ''desc'' \<rparr>) = Inr [usd_fund_pair, tie_pair]
   \<and> filterAndSortPairs lc_equal [usd_fund_pair, tie_pair]
       (default_filters\<lparr> sortOrder := ''asc'' \<rparr>) = Inr [usd_fund_pair, tie_pair]
   \<and> [usd_fund_pair, tie_pair] \<noteq> rev [usd_fund_pair, tie_pair]"
proof -
  have "pair_id usd_fund_pair \<noteq> pair_id tie_pair"
    by (simp add: usd_fund_pair_def tie_pair_def usdt_ton_pair_def)
  then have "usd_fund_pair \<noteq> tie_pair" by auto
  then show ?thesis
    using query_desc_tie query_asc_tie by simp
qed

theorem sort_order_reverse_witness:
  "filterAndSortPairs lc_equal [usd_fund_pair, usdt_ton_pair]
       (default_filters\<lparr> sortOrder := ''desc'' \<rparr>) = Inr [usdt_ton_pair, usd_fund_pair]
   \<and> filterAndSortPairs lc_equal [usd_fund_pair, usdt_ton_pair]
       (default_filters\<lparr> sortOrder := ''asc'' \<rparr>) = Inr [usd_fund_pair, usdt_ton_pair]
   \<and> is_double (Fin 1000) \<and> is_double (Fin 2000)
   \<and> js_ge (liquidity usdt_ton_pair) (liquidity usd_fund_pair)"
proof -
  have k1: "(0 < lc_equal a b) = ((\<lambda>_. 0 :: nat) b < (\<lambda>_. 0 :: nat) a)" for a b
    by (simp add: lc_equal_def)
  have k2: "(lc_equal a b < 0) = ((\<lambda>_. 0 :: nat) a < (\<lambda>_. 0 :: nat) b)" for a b
    by (simp add: lc_equal_def)
  have dbl: "is_double (Fin 1000)" "is_double (Fin 2000)"
    by (simp_all add: round64_1000 round64_2000)
  have keys: "sortBy default_filters \<noteq> ''name'' \<longrightarrow>
      (\<forall>p \<in> set [usd_fund_pair, usdt_ton_pair].
          is_double (sort_field default_filters p) \<and> sort_field default_filters p \<noteq> NaN)"
    using dbl by (simp add: sort_field_def default_filters_def usd_fund_pair_def usdt_ton_pair_def)
  have nt: "\<forall>i < length [usdt_ton_pair, usd_fund_pair].
              \<forall>j < length [usdt_ton_pair, usd_fund_pair].
                i \<noteq> j \<longrightarrow> \<not> same_key lc_equal default_filters
                    ([usdt_ton_pair, usd_fund_pair] ! i) ([usdt_ton_pair, usd_fund_pair] ! j)"
    by (auto simp: less_Suc_eq same_key_def sort_field_def default_filters_def
        usd_fund_pair_def usdt_ton_pair_def)
  from sort_order_reverse [of lc_equal "\<lambda>_. 0 :: nat" default_filters
      "[usd_fund_pair, usdt_ton_pair]" "[usdt_ton_pair, usd_fund_pair]",
      OF k1 k2 keys query_desc_distinct] nt
  obtain as where
    "filterAndSortPairs lc_equal [usd_fund_pair, usdt_ton_pair]
       (default_filters\<lparr> sortOrder := ''asc'' \<rparr>) = Inr as"
    "as = rev [usdt_ton_pair, usd_fund_pair]"
    by blast
  then show ?thesis
    using query_desc_distinct dbl by (simp add: liquidity_examples)
qed

section \<open>Properties of the paginator\<close>

lemma slice_nonneg:
  "0 \<le> s \<Longrightarrow> 0 \<le> l \<Longrightarrow> slice xs s (s + l) = take (nat l) (drop (nat s) xs)"
  by (cases "s \<le> int (length xs)") (auto simp: slice_def Let_def min_def)

lemma length_slice_nonneg:
  "0 \<le> s \<Longrightarrow> 0 \<le> l \<Longrightarrow>
     int (length (slice xs s (s + l))) = min l (max 0 (int (length xs) - s))"
  by (simp add: slice_nonneg)

lemma slice_page_zero: "0 \<le> l \<Longrightarrow> slice xs (- l) 0 = []"
  by (auto simp: slice_def Let_def)

lemma slice_from_end:
  "0 \<le> l \<Longrightarrow> l < s \<Longrightarrow> s \<le> int (length xs) \<Longrightarrow>
     slice xs (- s) (- s + l) = take (nat l) (drop (nat (int (length xs) - s)) xs)"
  by (auto simp: slice_def Let_def max_def)

text \<open>
  C7. For \<open>page \<ge> 1\<close> and \<open>limit \<ge> 1\<close> the page is the window
  \<open>items[(page-1)*limit : (page-1)*limit + limit]\<close>, its length is
  \<open>min(limit, max(0, items.length - (page-1)*limit))\<close>, \<open>totalPages\<close> is
  \<open>ceil(totalItems / limit)\<close>, \<open>hasNextPage\<close> is \<open>page < totalPages\<close>, \<open>hasPrevPage\<close> is
  \<open>page > 1\<close>, and a page beyond \<open>totalPages\<close> has no data (and is still a result).
\<close>

theorem paginate_exact:
  assumes "1 \<le> page" and "1 \<le> limit"
  shows "data (paginateResults xs page limit)
           = take (nat limit) (drop (nat ((page - 1) * limit)) xs)
       \<and> int (length (data (paginateResults xs page limit)))
           = min limit (max 0 (int (length xs) - (page - 1) * limit))
       \<and> totalPages (pagination (paginateResults xs page limit))
           = Fin (of_int \<lceil>(of_nat (length xs) :: rat) / of_int limit\<rceil>)
       \<and> hasNextPage (pagination (paginateResults xs page limit))
           = (page < \<lceil>(of_nat (length xs) :: rat) / of_int limit\<rceil>)
       \<and> hasPrevPage (pagination (paginateResults xs page limit)) = (1 < page)
       \<and> (\<lceil>(of_nat (length xs) :: rat) / of_int limit\<rceil> < page
            \<longrightarrow> data (paginateResults xs page limit) = [])"
proof -
  let ?s = "(page - 1) * limit"
  let ?tp = "\<lceil>(of_nat (length xs) :: rat) / of_int limit\<rceil>"
  have s0: "0 \<le> ?s" and l0: "0 \<le> limit" using assms by simp_all
  have d: "data (paginateResults xs page limit) = slice xs ?s (?s + limit)"
    by (simp add: paginateResults_def Let_def)
  have tp: "totalPages (pagination (paginateResults xs page limit)) = Fin (of_int ?tp)"
    using assms by (simp add: paginateResults_def Let_def ceil_div_def)
  have nx: "hasNextPage (pagination (paginateResults xs page limit)) = (page < ?tp)"
    using assms by (simp add: paginateResults_def Let_def ceil_div_def)
  have pv: "hasPrevPage (pagination (paginateResults xs page limit)) = (1 < page)"
    by (simp add: paginateResults_def Let_def)
  have beyond: "data (paginateResults xs page limit) = []" if "?tp < page"
  proof -
    from that have "(of_nat (length xs) :: rat) / of_int limit \<le> of_int (page - 1)"
      by (simp add: ceiling_less_iff)
    then have "(of_nat (length xs) :: rat) \<le> of_int (page - 1) * of_int limit"
      using assms by (simp add: pos_divide_le_eq)
    then have "(of_int (int (length xs)) :: rat) \<le> of_int ((page - 1) * limit)"
      by simp
    then have "int (length xs) \<le> ?s"
      by (simp only: of_int_le_iff)
    then show ?thesis
      using s0 l0 by (simp add: d slice_nonneg)
  qed
  show ?thesis
    using d tp nx pv beyond s0 l0
    by (simp add: slice_nonneg length_slice_nonneg [symmetric])
qed

theorem paginate_exact_witness:
  "(1::int) \<le> 2 \<and> (1::int) \<le> 3
   \<and> data (paginateResults [10, 20, 30, 40, 50, 60, 70 :: nat] 2 3) = [40, 50, 60]
   \<and> totalPages (pagination (paginateResults [10, 20, 30, 40, 50, 60, 70 :: nat] 2 3)) = Fin 3
   \<and> hasNextPage (pagination (paginateResults [10, 20, 30, 40, 50, 60, 70 :: nat] 2 3))
   \<and> hasPrevPage (pagination (paginateResults [10, 20, 30, 40, 50, 60, 70 :: nat] 2 3))"
proof -
  have c: "\<lceil>(7::rat) / 3\<rceil> = 3"
    by (rule ceiling_unique) simp_all
  show ?thesis
    using paginate_exact [of 2 3 "[10, 20, 30, 40, 50, 60, 70 :: nat]"]
    by (simp add: c)
qed

text \<open>
  C9. With \<open>limit \<ge> 1\<close>, page \<open>0\<close> always has no data. A negative page is not an empty
  page: its slice indices are negative and count from the end of the list, so on a list
  that is long enough it returns a full window taken from the end, as
  \<open>paginate([1..10], page = -1, limit = 3).data = [5, 6, 7]\<close> shows.
\<close>

theorem paginate_page_below_one:
  "(1 \<le> limit \<longrightarrow> data (paginateResults xs 0 limit) = [])
   \<and> (page < 0 \<and> 1 \<le> limit \<and> (1 - page) * limit \<le> int (length xs)
       \<longrightarrow> data (paginateResults xs page limit)
              = take (nat limit) (drop (nat (int (length xs) - (1 - page) * limit)) xs))
   \<and> data (paginateResults [1, 2, 3, 4, 5, 6, 7, 8, 9, 10 :: nat] (- 1) 3) = [5, 6, 7]"
proof -
  have a: "data (paginateResults xs 0 limit) = []" if "1 \<le> limit"
    using that slice_page_zero [of limit xs] by (simp add: paginateResults_def Let_def)
  have b: "data (paginateResults xs page limit)
             = take (nat limit) (drop (nat (int (length xs) - (1 - page) * limit)) xs)"
    if "page < 0" "1 \<le> limit" "(1 - page) * limit \<le> int (length xs)"
  proof -
    let ?s = "(1 - page) * limit"
    have "limit * 1 < limit * (1 - page)"
      using that by (intro mult_strict_left_mono) simp_all
    then have ls: "limit < ?s" by (simp add: mult.commute)
    have e: "(page - 1) * limit = - ?s" by (simp add: algebra_simps)
    have "data (paginateResults xs page limit) = slice xs (- ?s) (- ?s + limit)"
      by (simp add: paginateResults_def Let_def e)
    then show ?thesis
      using slice_from_end [of limit ?s xs] that ls by simp
  qed
  have c: "data (paginateResults [1, 2, 3, 4, 5, 6, 7, 8, 9, 10 :: nat] (- 1) 3) = [5, 6, 7]"
    by (simp add: paginateResults_def Let_def slice_def)
  show ?thesis using a b c by simp
qed

theorem paginate_page_below_one_witness:
  "(1::int) \<le> 2 \<and> data (paginateResults [1, 2, 3, 4, 5 :: nat] 0 2) = []
   \<and> (- 2 :: int) < 0 \<and> (1 - (- 2)) * 2 \<le> int (length [1, 2, 3, 4, 5, 6, 7 :: nat])
   \<and> data (paginateResults [1, 2, 3, 4, 5, 6, 7 :: nat] (- 2) 2) = [2, 3]"
  using paginate_page_below_one [of 2 "[1, 2, 3, 4, 5 :: nat]" 0]
    paginate_page_below_one [of 2 "[1, 2, 3, 4, 5, 6, 7 :: nat]" "- 2"]
  by simp

section \<open>The paginator of the handler\<close>

text \<open>Integers up to \<open>2^53\<close> in magnitude are Numbers.\<close>

lemma round_half_even_of_int: "round_half_even (of_int k) = k"
  by (simp add: round_half_even_def Let_def)

lemma pow2_strict_mono: "i < j \<Longrightarrow> pow2 i < pow2 j"
  by (simp add: pow2_powi power_int_strict_increasing)

lemma ilog2_upper: assumes "0 < x" shows "x < pow2 (ilog2 x + 1)"
proof (cases "1 \<le> x")
  case True
  then have fl: "0 < nat \<lfloor>x\<rfloor>" by simp
  from bit_length_bounds [OF fl] have "nat \<lfloor>x\<rfloor> < 2 ^ bit_length (nat \<lfloor>x\<rfloor>)" by simp
  then have "int (nat \<lfloor>x\<rfloor>) < 2 ^ bit_length (nat \<lfloor>x\<rfloor>)"
    by (metis of_nat_less_iff of_nat_numeral of_nat_power)
  then have "\<lfloor>x\<rfloor> < 2 ^ bit_length (nat \<lfloor>x\<rfloor>)" using True by simp
  then have "x < of_int (2 ^ bit_length (nat \<lfloor>x\<rfloor>))"
    by (simp only: floor_less_iff)
  then have "x < 2 ^ bit_length (nat \<lfloor>x\<rfloor>)" by simp
  then show ?thesis using True
    by (simp add: ilog2_def pow2_def)
next
  case False
  with assms have x1: "x < 1" by simp
  let ?y = "nat \<lfloor>1 / x\<rfloor>"
  let ?k = "int (bit_length ?y) - 1"
  have "1 \<le> 1 / x" using assms x1 by simp
  then have f1: "1 \<le> \<lfloor>1 / x\<rfloor>" by simp
  then have fl: "0 < ?y" by simp
  have yi: "int ?y = \<lfloor>1 / x\<rfloor>" using f1 assms by simp
  have b1: "0 < bit_length ?y" using fl by (simp add: bit_length_pos)
  have k0: "0 \<le> ?k" using b1 by simp
  show ?thesis
  proof (cases "x = pow2 (- ?k)")
    case True
    then have "ilog2 x = - ?k" using False by (simp add: ilog2_def Let_def)
    moreover have "pow2 (- ?k) < pow2 (- ?k + 1)" by (rule pow2_strict_mono) simp
    ultimately show ?thesis using True by simp
  next
    case neq: False
    from bit_length_bounds [OF fl] have "2 ^ (bit_length ?y - 1) \<le> ?y" by simp
    then have "(2::int) ^ (bit_length ?y - 1) \<le> int ?y"
      by (metis of_nat_le_iff of_nat_numeral of_nat_power)
    then have "(2::int) ^ (bit_length ?y - 1) \<le> \<lfloor>1 / x\<rfloor>" unfolding yi .
    then have "(of_int (2 ^ (bit_length ?y - 1)) :: rat) \<le> 1 / x"
      by (simp only: le_floor_iff)
    then have "(2::rat) ^ (bit_length ?y - 1) \<le> 1 / x" by simp
    then have "x * 2 ^ (bit_length ?y - 1) \<le> 1"
      using assms by (simp add: field_simps)
    then have "x \<le> 1 / 2 ^ (bit_length ?y - 1)"
      by (simp add: field_simps)
    moreover have "pow2 (- ?k) = 1 / 2 ^ (bit_length ?y - 1)"
      using b1 by (auto simp: pow2_def nat_diff_distrib)
    ultimately have "x \<le> pow2 (- ?k)" by simp
    with neq have "x < pow2 (- ?k)" by simp
    moreover have "ilog2 x = - ?k - 1"
      using False neq by (simp add: ilog2_def Let_def)
    ultimately show ?thesis by simp
  qed
qed

lemma round64_of_int:
  assumes "\<bar>n\<bar> \<le> 2 ^ 53"
  shows "round64 (of_int n) = Fin (of_int n)"
proof (cases "n = 0")
  case True
  then show ?thesis by (simp add: round64_def)
next
  case False
  let ?a = "\<bar>of_int n :: rat\<bar>"
  let ?e = "ilog2 ?a"
  have a1: "1 \<le> ?a" using False by (simp flip: of_int_abs)
  then have a0: "0 < ?a" by simp
  have a53: "?a \<le> pow2 53"
  proof -
    have "(of_int \<bar>n\<bar> :: rat) \<le> of_int (2 ^ 53)"
      using assms by (simp only: of_int_le_iff)
    then show ?thesis by (simp add: pow2_def)
  qed
  have e0: "0 \<le> ?e"
  proof (rule ccontr)
    assume "\<not> 0 \<le> ?e"
    then have "pow2 (?e + 1) \<le> pow2 0" by (intro pow2_mono) simp
    with ilog2_upper [OF a0] a1 show False by (simp add: pow2_def)
  qed
  have e53: "?e \<le> 53"
  proof (rule ccontr)
    assume "\<not> ?e \<le> 53"
    then have "pow2 53 < pow2 ?e" by (intro pow2_strict_mono) simp
    with ilog2_lower [OF a0] a53 show False by simp
  qed
  let ?u = "pow2 (?e - 52)"
  have u0: "0 < ?u" by (rule pow2_pos)
  have "\<exists>k :: int. ?a = of_int k * ?u"
  proof (cases "?e \<le> 52")
    case True
    then have "pow2 (?e - 52) = 1 / 2 ^ nat (52 - ?e)"
      by (auto simp: pow2_def)
    then have "?a = of_int (\<bar>n\<bar> * 2 ^ nat (52 - ?e)) * ?u"
      by simp
    then show ?thesis by blast
  next
    case False
    with e53 have e: "?e = 53" by simp
    with ilog2_lower [OF a0] a53 have "?a = pow2 53" by simp
    moreover have "pow2 (?e - 52) = 2" by (simp add: e pow2_def)
    ultimately have "?a = of_int (2 ^ 52) * ?u" by (simp add: pow2_def)
    then show ?thesis by blast
  qed
  then obtain k :: int where k: "?a = of_int k * ?u" ..
  have "?a / ?u = of_int k * ?u / ?u"
    by (rule arg_cong [where f = "\<lambda>z. z / ?u", OF k])
  also have "\<dots> = of_int k" using u0 by simp
  finally have q: "?a / ?u = of_int k" .
  have m: "max ?e (- 1022) = ?e" using e0 by simp
  have y: "of_int (round_half_even (?a / ?u)) * ?u = ?a"
    by (simp only: q round_half_even_of_int k [symmetric])
  have lt: "?a < pow2 1024"
  proof -
    have "pow2 53 < pow2 1024" by (rule pow2_strict_mono) simp
    with a53 show ?thesis by simp
  qed
  show ?thesis
    using False lt unfolding round64_def Let_def m y
    by (auto simp: not_le)
qed

text \<open>
  Rounding a value of the normal range changes it by at most the fraction \<open>2^-53\<close> of
  it, so the quotient of two integers below \<open>2^53\<close> is rounded to a Number with the
  same ceiling.
\<close>

lemma round_half_even_error: "\<bar>of_int (round_half_even q) - q\<bar> \<le> 1 / 2"
proof -
  have "of_int \<lfloor>q\<rfloor> \<le> q" "q < of_int \<lfloor>q\<rfloor> + 1" by linarith+
  then show ?thesis
    by (auto simp: round_half_even_def Let_def abs_le_iff)
qed

lemma round64_error:
  assumes "pow2 (- 1022) \<le> x" and "x \<le> pow2 1000"
  shows "\<exists>y. round64 x = Fin y \<and> \<bar>y - x\<bar> \<le> x / 2 ^ 53"
proof -
  have x0: "0 < x" using assms(1) pow2_pos [of "- 1022"] by simp
  let ?e = "ilog2 x"
  have e: "- 1022 \<le> ?e"
  proof (rule ccontr)
    assume "\<not> - 1022 \<le> ?e"
    then have "pow2 (?e + 1) \<le> pow2 (- 1022)" by (intro pow2_mono) simp
    with ilog2_upper [OF x0] assms(1) show False by simp
  qed
  then have m: "max ?e (- 1022) = ?e" by simp
  let ?u = "pow2 (?e - 52)"
  let ?m = "round_half_even (x / ?u)"
  let ?y = "of_int ?m * ?u"
  have u0: "0 < ?u" by (rule pow2_pos)
  have "?y - x = (of_int ?m - x / ?u) * ?u"
    using u0 by (simp add: algebra_simps)
  then have "\<bar>?y - x\<bar> = \<bar>of_int ?m - x / ?u\<bar> * ?u"
    using u0 by (simp add: abs_mult)
  also have "\<dots> \<le> 1 / 2 * ?u"
    using u0 round_half_even_error [of "x / ?u"] by (intro mult_right_mono) simp_all
  also have "1 / 2 * ?u = pow2 ?e / 2 ^ 53"
  proof -
    have "pow2 (?e - 52) = pow2 (?e + (- 52))" by simp
    also have "\<dots> = pow2 ?e * pow2 (- 52)" by (rule pow2_add)
    finally show ?thesis by (simp add: pow2_def)
  qed
  also have "\<dots> \<le> x / 2 ^ 53"
    using ilog2_lower [OF x0] by (simp add: divide_right_mono)
  finally have err: "\<bar>?y - x\<bar> \<le> x / 2 ^ 53" .
  have "x / 2 ^ 53 \<le> x / 1"
    using x0 by (intro divide_left_mono) simp_all
  with err have "\<bar>?y - x\<bar> \<le> x" by simp
  then have "?y \<le> 2 * x" by (simp only: abs_le_iff) linarith
  also have "\<dots> \<le> 2 * pow2 1000" using assms(2) by simp
  also have "\<dots> = pow2 1001"
  proof -
    have "pow2 1001 = pow2 (1 + 1000)" by simp
    also have "\<dots> = pow2 1 * pow2 1000" by (rule pow2_add)
    finally show ?thesis by (simp add: pow2_def)
  qed
  also have "\<dots> < pow2 1024" by (rule pow2_strict_mono) simp
  finally have lt: "?y < pow2 1024" .
  have ax: "\<bar>x\<bar> = x" using x0 by simp
  have "round64 x = Fin ?y"
    using x0 lt unfolding round64_def Let_def ax m by (simp add: not_le)
  with err show ?thesis by blast
qed

lemma ceil_round64_div:
  assumes "0 \<le> n" "n < 2 ^ 53" "0 < d" "d \<le> 2 ^ 53"
  shows "math_ceil (round64 (of_int n / of_int d))
           = Fin (of_int \<lceil>(of_int n :: rat) / of_int d\<rceil>)"
proof (cases "n = 0")
  case True
  then show ?thesis by (simp add: round64_def)
next
  case False
  with assms(1) have n1: "1 \<le> n" by simp
  define N :: rat where "N = of_int n"
  define D :: rat where "D = of_int d"
  define B :: rat where "B = 2 ^ 53"
  let ?x = "N / D"
  let ?c = "\<lceil>?x\<rceil>"
  have B: "B = of_int (2 ^ 53)" by (simp add: B_def)
  have d0: "0 < D" using assms(3) by (simp add: D_def)
  have d1: "1 \<le> D" using assms(3) by (simp add: D_def)
  have dB: "D \<le> B" unfolding D_def B using assms(4) by (simp only: of_int_le_iff)
  have n1': "1 \<le> N" using n1 by (simp add: N_def)
  have nB: "N < B" unfolding N_def B using assms(2) by (simp only: of_int_less_iff)
  have B0: "0 < B" by (simp add: B_def)
  have x0: "0 < ?x" using n1' d0 by simp
  have xn: "?x \<le> N"
  proof -
    have "N / D \<le> N / 1" using n1' d1 by (intro divide_left_mono) simp_all
    then show ?thesis by simp
  qed
  have lo: "pow2 (- 1022) \<le> ?x"
  proof -
    have "pow2 (- 1022) \<le> pow2 (- 53)" by (rule pow2_mono) simp
    also have "\<dots> = 1 / B" by (simp add: pow2_def B_def)
    also have "\<dots> \<le> 1 / D" using dB d0 by (intro divide_left_mono) simp_all
    also have "\<dots> \<le> ?x" using n1' d0 by (intro divide_right_mono) simp_all
    finally show ?thesis .
  qed
  have hi: "?x \<le> pow2 1000"
  proof -
    have "?x \<le> B" using xn nB by simp
    also have "\<dots> = pow2 53" by (simp add: pow2_def B_def)
    also have "\<dots> \<le> pow2 1000" by (rule pow2_mono) simp
    finally show ?thesis .
  qed
  from round64_error [OF lo hi] obtain y where
    y: "round64 ?x = Fin y" and err0: "\<bar>y - ?x\<bar> \<le> ?x / 2 ^ 53" by blast
  from err0 have err: "\<bar>y - ?x\<bar> \<le> ?x / B" by (simp only: B_def)
  have small: "?x / B < 1 / D"
  proof -
    have "N / B < 1" using nB B0 by simp
    then have "N / B / D < 1 / D" using d0 by (rule divide_strict_right_mono)
    then show ?thesis by (simp add: divide_divide_eq_left mult.commute)
  qed
  have "\<lceil>y\<rceil> = ?c"
  proof (cases "?x = of_int ?c")
    case True
    have "(of_int ?c :: rat) \<le> of_int (2 ^ 53)" "(of_int 0 :: rat) \<le> of_int ?c"
      using True xn nB x0 unfolding B by simp_all
    then have "?c \<le> 2 ^ 53" "0 \<le> ?c"
      by (simp_all only: of_int_le_iff)
    then have "\<bar>?c\<bar> \<le> 2 ^ 53" by simp
    from round64_of_int [OF this] True y have "y = of_int ?c" by simp
    then show ?thesis by simp
  next
    case False
    have "?x \<le> of_int ?c" by (rule le_of_int_ceiling)
    with False have "?x < of_int ?c" by (rule order.not_eq_order_implies_strict)
    then have "N < of_int ?c * D"
      using d0 by (simp add: pos_divide_less_eq)
    then have "(of_int n :: rat) < of_int (?c * d)" by (simp add: N_def D_def)
    then have "n < ?c * d" by (simp only: of_int_less_iff)
    then have "n + 1 \<le> ?c * d" by simp
    then have "(of_int (n + 1) :: rat) \<le> of_int (?c * d)" by (simp only: of_int_le_iff)
    then have "N + 1 \<le> of_int ?c * D" by (simp add: N_def D_def)
    then have "(N + 1) / D \<le> of_int ?c"
      using d0 by (simp add: pos_divide_le_eq)
    then have up: "?x + 1 / D \<le> of_int ?c"
      by (simp add: add_divide_distrib)
    have "of_int ?c - 1 < ?x" by linarith
    then have "(of_int ?c - 1) * D < N"
      using d0 by (simp add: pos_less_divide_eq)
    then have "(of_int ((?c - 1) * d) :: rat) < of_int n" by (simp add: N_def D_def)
    then have "(?c - 1) * d < n" by (simp only: of_int_less_iff)
    then have "(?c - 1) * d + 1 \<le> n" by simp
    then have "(of_int ((?c - 1) * d + 1) :: rat) \<le> of_int n" by (simp only: of_int_le_iff)
    then have "(of_int ?c - 1) * D + 1 \<le> N" by (simp add: N_def D_def)
    then have "((of_int ?c - 1) * D + 1) / D \<le> ?x"
      using d0 by (intro divide_right_mono) simp_all
    then have low: "of_int ?c - 1 + 1 / D \<le> ?x"
      using d0 by (simp add: add_divide_distrib)
    from err small up low have "of_int ?c - 1 < y" "y \<le> of_int ?c"
      by (simp_all only: abs_le_iff) linarith+
    then show ?thesis by (rule ceiling_unique)
  qed
  then show ?thesis using y unfolding N_def D_def by simp
qed

lemma js_sub_int:
  "\<bar>a - b\<bar> \<le> 2 ^ 53 \<Longrightarrow> js_sub (Fin (of_int a)) (Fin (of_int b)) = Fin (of_int (a - b))"
  using round64_of_int [of "a - b"] by simp

lemma js_mul_int:
  "\<bar>a * b\<bar> \<le> 2 ^ 53 \<Longrightarrow> js_mul (Fin (of_int a)) (Fin (of_int b)) = Fin (of_int (a * b))"
  using round64_of_int [of "a * b"] by simp

lemma js_add_int:
  "\<bar>a + b\<bar> \<le> 2 ^ 53 \<Longrightarrow> js_add (Fin (of_int a)) (Fin (of_int b)) = Fin (of_int (a + b))"
  using round64_of_int [of "a + b"] by simp

lemma clamp_index_int:
  "clamp_index len (Fin (of_int i)) = (if i < 0 then max (len + i) 0 else min i len)"
  by (simp add: clamp_index_def Let_def)

lemma slice_num_int: "slice_num xs (Fin (of_int s)) (Fin (of_int e)) = slice xs s e"
  by (simp only: slice_num_def slice_def clamp_index_int Let_def)

lemma math_min_int: "math_min (Fin (of_int a)) (Fin (of_int b)) = Fin (of_int (min a b))"
  by (simp add: min_def)

text \<open>
  On a page size from \<open>1\<close> to \<open>2^26\<close>, a page number up to \<open>2^26\<close> in magnitude and a
  list shorter than \<open>2^53\<close>, the paginator on Numbers computes what the paginator on
  integers computes: no operation rounds, and the rounded quotient has the ceiling of
  the exact one.
\<close>

lemma paginateResults_num_int:
  assumes "1 \<le> limit" "limit \<le> 2 ^ 26" "\<bar>page\<bar> \<le> 2 ^ 26" "int (length xs) < 2 ^ 53"
  shows "paginateResults_num xs (Fin (of_int page)) (Fin (of_int limit))
     = \<lparr> num_data = data (paginateResults xs page limit),
         num_pagination =
           \<lparr> num_currentPage = Fin (of_int (currentPage (pagination (paginateResults xs page limit)))),
             num_totalPages = totalPages (pagination (paginateResults xs page limit)),
             num_totalItems = totalItems (pagination (paginateResults xs page limit)),
             num_itemsPerPage = Fin (of_int (itemsPerPage (pagination (paginateResults xs page limit)))),
             num_hasNextPage = hasNextPage (pagination (paginateResults xs page limit)),
             num_hasPrevPage = hasPrevPage (pagination (paginateResults xs page limit)),
             num_startIndex = Fin (of_int (startIndex (pagination (paginateResults xs page limit)))),
             num_endIndex = Fin (of_int (endIndex (pagination (paginateResults xs page limit)))) \<rparr> \<rparr>"
proof -
  let ?s = "(page - 1) * limit"
  have p1: "\<bar>page - 1\<bar> \<le> 2 ^ 26 + 1" using assms(3) by simp
  have "\<bar>?s\<bar> = \<bar>page - 1\<bar> * limit" using assms(1) by (simp add: abs_mult)
  also have "\<dots> \<le> (2 ^ 26 + 1) * 2 ^ 26"
    using p1 assms(1,2) by (intro mult_mono) simp_all
  finally have s: "\<bar>?s\<bar> \<le> 2 ^ 52 + 2 ^ 26" by simp
  have b1: "\<bar>page - 1\<bar> \<le> 2 ^ 53" using p1 by simp
  have b2: "\<bar>?s\<bar> \<le> 2 ^ 53" using s by simp
  have b3: "\<bar>?s + limit\<bar> \<le> 2 ^ 53" using s assms(1,2) by simp
  have b4: "\<bar>?s + 1\<bar> \<le> 2 ^ 53" using s by simp
  have one: "Fin 1 = Fin (of_int 1)" by simp
  have sub: "js_sub (Fin (of_int page)) (Fin 1) = Fin (of_int (page - 1))"
    unfolding one using b1 by (rule js_sub_int)
  have mul: "js_mul (Fin (of_int (page - 1))) (Fin (of_int limit)) = Fin (of_int ?s)"
    using b2 by (rule js_mul_int)
  have add: "js_add (Fin (of_int ?s)) (Fin (of_int limit)) = Fin (of_int (?s + limit))"
    using b3 by (rule js_add_int)
  have add1: "js_add (Fin (of_int ?s)) (Fin 1) = Fin (of_int (?s + 1))"
    unfolding one using b4 by (rule js_add_int)
  have l53: "limit \<le> 2 ^ 53" using assms(2) by simp
  have l0: "0 < limit" using assms(1) by simp
  have tp: "math_ceil (js_div (Fin (of_int (int (length xs)))) (Fin (of_int limit)))
              = ceil_div (int (length xs)) limit"
    using ceil_round64_div [OF _ assms(4) l0 l53] l0
    by (simp add: ceil_div_def)
  have prev: "js_gt (Fin (of_int page)) (Fin 1) = (1 < page)"
    by (simp add: js_gt_def)
  show ?thesis
    unfolding paginateResults_num_def paginateResults_def Let_def sub mul add add1 tp prev
      slice_num_int math_min_int
    by simp
qed

end
